theory Spec2Isabelle
  imports Complex_Main
begin

section \<open>Strings\<close>

text \<open>
  A Python \<open>str\<close> is modelled as a \<open>string\<close>: a list of 8-bit characters, each one
  standing for a code point below 256. The characters that \<open>str.split()\<close> and
  \<open>str.isspace()\<close> treat as whitespace in that range are the code points
  9 to 13, 28 to 32, 133 and 160.
\<close>

definition is_space :: "char \<Rightarrow> bool" where
  "is_space c =
     (let n = (of_char c :: nat)
      in (9 \<le> n \<and> n \<le> 13) \<or> (28 \<le> n \<and> n \<le> 32) \<or> n = 133 \<or> n = 160)"

text \<open>
  \<open>prompt.split()\<close>: the maximal runs of non-whitespace characters, in order. The first
  argument is the word being read.
\<close>

fun split_acc :: "string \<Rightarrow> string \<Rightarrow> string list" where
  "split_acc w [] = (if w = [] then [] else [w])"
| "split_acc w (c # cs) =
     (if is_space c
      then (if w = [] then split_acc [] cs else w # split_acc [] cs)
      else split_acc (w @ [c]) cs)"

definition split_ws :: "string \<Rightarrow> string list" where
  "split_ws s = split_acc [] s"

text \<open>\<open>" ".join(words)\<close>\<close>

fun join_sp :: "string list \<Rightarrow> string" where
  "join_sp [] = []"
| "join_sp [w] = w"
| "join_sp (w # v # ws) = w @ CHR '' '' # join_sp (v # ws)"

text \<open>
  The slice \<open>xs[:n]\<close> for an integer \<open>n\<close>: the first \<open>n\<close> elements, and for a negative
  \<open>n\<close> all but the last \<open>-n\<close>.
\<close>

definition py_take :: "int \<Rightarrow> 'a list \<Rightarrow> 'a list" where
  "py_take n xs = (if n < 0 then take (length xs - nat (- n)) xs else take (nat n) xs)"

section \<open>truncate_prompt\<close>

definition truncate_prompt :: "string \<Rightarrow> int \<Rightarrow> string" where
  "truncate_prompt prompt max_tokens =
     (let words = split_ws prompt
      in if int (length words) \<le> max_tokens then prompt
         else join_sp (py_take max_tokens words))"

text \<open>A word: non-empty and free of whitespace.\<close>

definition is_word :: "string \<Rightarrow> bool" where
  "is_word w = (w \<noteq> [] \<and> (\<forall>c \<in> set w. \<not> is_space c))"

section \<open>Exceptions\<close>

text \<open>
  An exception is a value. \<open>PyException\<close> is a plain \<open>Exception(message)\<close> raised
  by the source itself; \<open>AttributeError\<close>, \<open>IndexError\<close> and \<open>KeyError\<close> are what
  Python raises on \<open>None.group(1)\<close>, on an index out of range and on a missing dictionary
  key; \<open>RuntimeError\<close> is a \<open>RuntimeError\<close> (or a subclass of it) raised by a
  collaborator, with \<open>str(e)\<close>; \<open>OtherError\<close> is any other exception of a collaborator.
  All of them are instances of \<open>Exception\<close>; \<open>KeyboardInterrupt\<close> and
  \<open>SystemExit\<close>, which \<open>except Exception\<close> does not catch, are not modelled.
\<close>

datatype py_error =
    PyException string
  | AttributeError
  | IndexError
  | KeyError string
  | RuntimeError string
  | OtherError string

section \<open>The patterns of load_loras\<close>

text \<open>
  The regular expressions of \<open>load_loras\<close> are sequences of literal text, the wildcard
  \<open>.\<close> (any character but a newline), an optional character and a greedy \<open>+\<close> over a
  character class that is always followed by a character outside the class (or by the end
  of the pattern), so matching never backtracks. Each piece is a function from the input
  to the rest of the input after the piece, or \<open>None\<close>.
\<close>

definition slug_char :: "char \<Rightarrow> bool" where
  "slug_char c =
     (c \<in> set ''abcdefghijklmnopqrstuvwxyzABCDEFGHIJKLMNOPQRSTUVWXYZ0123456789_-'')"

definition digit_char :: "char \<Rightarrow> bool" where
  "digit_char c = (c \<in> set ''0123456789'')"

text \<open>
  Literal text of a pattern in which \<open>.\<close> is the unescaped wildcard, as in
  \<open>replicate.delivery\<close>, \<open>trained_model.tar\<close>, \<open>huggingface.co\<close> and \<open>civitai.com\<close>.
\<close>

fun match_pat :: "string \<Rightarrow> string \<Rightarrow> string option" where
  "match_pat [] s = Some s"
| "match_pat (p # ps) [] = None"
| "match_pat (p # ps) (c # cs) =
     (if (if p = CHR ''.'' then c \<noteq> CHR 0x0A else c = p) then match_pat ps cs else None)"

text \<open>\<open>[class]+\<close>\<close>

definition match_plus :: "(char \<Rightarrow> bool) \<Rightarrow> string \<Rightarrow> string option" where
  "match_plus P s = (if takeWhile P s = [] then None else Some (dropWhile P s))"

text \<open>\<open>https?://\<close>\<close>

definition match_scheme :: "string \<Rightarrow> string option" where
  "match_scheme s =
     (case match_pat ''http'' s of
        None \<Rightarrow> None
      | Some r \<Rightarrow>
          match_pat ''://'' (case r of [] \<Rightarrow> [] | c # cs \<Rightarrow> if c = CHR ''s'' then cs else r))"

fun re_seq :: "(string \<Rightarrow> string option) list \<Rightarrow> string \<Rightarrow> string option" where
  "re_seq [] s = Some s"
| "re_seq (m # ms) s = (case m s of None \<Rightarrow> None | Some r \<Rightarrow> re_seq ms r)"

text \<open>
  \<open>re.match(r"^[a-zA-Z0-9_-]+/[a-zA-Z0-9_-]+$", hf_lora)\<close>. The final \<open>$\<close> matches at
  the end of the string and also just before a newline that ends the string.
\<close>

definition is_hf_slug :: "string \<Rightarrow> bool" where
  "is_hf_slug s =
     (case re_seq [match_plus slug_char, match_pat ''/'', match_plus slug_char] s of
        None \<Rightarrow> False
      | Some r \<Rightarrow> r = [] \<or> r = [CHR 0x0A])"

text \<open>
  \<open>re.match(r"^https?://replicate.delivery/[a-zA-Z0-9_-]+/[a-zA-Z0-9_-]+/trained_model.tar", hf_lora)\<close>
\<close>

definition is_replicate_tar :: "string \<Rightarrow> bool" where
  "is_replicate_tar s =
     (re_seq [match_scheme, match_pat ''replicate.delivery/'', match_plus slug_char,
              match_pat ''/'', match_plus slug_char, match_pat ''/trained_model.tar''] s
        \<noteq> None)"

text \<open>\<open>re.match(r"^https?://huggingface.co", hf_lora)\<close>\<close>

definition is_hf_url :: "string \<Rightarrow> bool" where
  "is_hf_url s = (re_seq [match_scheme, match_pat ''huggingface.co''] s \<noteq> None)"

text \<open>
  \<open>re.search(r"^https?://huggingface.co/([a-zA-Z0-9_-]+/[a-zA-Z0-9_-]+)", hf_lora)\<close>:
  group 1 of the match, or \<open>None\<close> when the search finds nothing.
\<close>

definition hf_url_slug :: "string \<Rightarrow> string option" where
  "hf_url_slug s =
     (case re_seq [match_scheme, match_pat ''huggingface.co/''] s of
        None \<Rightarrow> None
      | Some r \<Rightarrow>
          (let owner = takeWhile slug_char r
           in case dropWhile slug_char r of
                [] \<Rightarrow> None
              | c # r2 \<Rightarrow>
                  (let name = takeWhile slug_char r2
                   in if owner \<noteq> [] \<and> c = CHR ''/'' \<and> name \<noteq> []
                      then Some (owner @ ''/'' @ name) else None)))"

text \<open>
  \<open>re.match(r"^https?://civitai.com/api/download/models/[0-9]+\?type=Model&format=SafeTensor", hf_lora)\<close>
\<close>

definition is_civitai :: "string \<Rightarrow> bool" where
  "is_civitai s =
     (re_seq [match_scheme, match_pat ''civitai.com/api/download/models/'',
              match_plus digit_char, match_pat ''?type=Model&format=SafeTensor''] s
        \<noteq> None)"

text \<open>\<open>s.endswith(suf)\<close>\<close>

definition ends_with :: "string \<Rightarrow> string \<Rightarrow> bool" where
  "ends_with suf s = (length suf \<le> length s \<and> drop (length s - length suf) s = suf)"

text \<open>\<open>hf_lora.split('/')[-1]\<close>: the text after the last slash.\<close>

definition last_segment :: "string \<Rightarrow> string" where
  "last_segment s = rev (takeWhile (\<lambda>c. c \<noteq> CHR ''/'') (rev s))"

text \<open>\<open>os.path.join(a, b)\<close> on a POSIX system.\<close>

definition path_join :: "string \<Rightarrow> string \<Rightarrow> string" where
  "path_join a b =
     (if b \<noteq> [] \<and> hd b = CHR ''/'' then b
      else if a = [] \<or> last a = CHR ''/'' then a @ b
      else a @ ''/'' @ b)"

section \<open>The predictor and its collaborators\<close>

text \<open>
  The calls that change the adapters of the pipeline are recorded, in order, in
  \<open>lora_log\<close>. The text-to-image and the image-to-image pipeline are built in \<open>setup\<close>
  over the same UNet and text encoder, so one log serves both. A LoRA scale is a Python
  float that the source only copies; it is modelled as a real number.
\<close>

datatype lora_op =
    Unload
  | LoadLora string "string option" "string option"
  | SetAdapters "string list" "real list"

text \<open>
  \<open>LoadLora src adapter_name weight_name\<close> is
  \<open>load_lora_weights(src, adapter_name=..., weight_name=...)\<close>, with \<open>None\<close> for a
  keyword that the call does not pass. \<open>last_loaded_loras\<close> is \<open>None\<close> for the empty
  dictionary that \<open>setup\<close> stores, which no list equals. \<open>attn_patched\<close> says that
  \<open>set_attn_processor(AttnProcessor2_0())\<close> has been called on the UNet, \<open>infer_calls\<close>
  counts the calls of the pipeline, \<open>saved\<close> lists the \<open>image.save\<close> calls (the path,
  and the quality when one is passed), and \<open>cache\<close> is the state of the
  \<open>WeightsDownloadCache\<close>.
\<close>

record 'c predictor =
  last_loaded_loras :: "string list option"
  lora_log :: "lora_op list"
  attn_patched :: bool
  infer_calls :: nat
  saved :: "(string \<times> int option) list"
  cache :: 'c

record 'ten pipe_args =
  use_img2img :: bool
  arg_prompt :: "string list"
  arg_guidance_scale :: real
  arg_seed :: nat
  arg_num_inference_steps :: int
  arg_width :: nat
  arg_height :: nat
  arg_image :: "'ten option"
  arg_strength :: "real option"
  arg_joint_attention_scale :: "real option"

text \<open>
  What the source calls and does not define. \<open>ensure c url file\<close> is
  \<open>weights_cache.ensure(url, file=file)\<close> in cache state \<open>c\<close>: the local path or the
  exception, and the new cache state. \<open>get_image\<close> stands for lines 377 to 395 (opening
  the input image and resizing the tensor), \<open>pipe_call\<close> for one call of the pipeline
  in the given predictor state, \<open>safety_checker\<close> for \<open>run_safety_checker\<close> (lines 213 to 221, library calls only), and
  \<open>urandom_seed\<close> for \<open>int.from_bytes(os.urandom(2), "big")\<close>. The other library
  calls on the pipeline (\<open>load_lora_weights\<close>, \<open>set_adapters\<close>,
  \<open>unload_lora_weights\<close>, \<open>set_attn_processor\<close>, \<open>to\<close>) and \<open>image.save\<close> are
  recorded and taken to return.
\<close>

record ('c, 'img, 'ten) env =
  ensure :: "'c \<Rightarrow> string \<Rightarrow> bool \<Rightarrow> (py_error + string) \<times> 'c"
  get_image :: "string \<Rightarrow> py_error + 'ten"
  pipe_call :: "'c predictor \<Rightarrow> 'ten pipe_args \<Rightarrow> py_error + 'img list"
  safety_checker :: "'img list \<Rightarrow> py_error + bool list"
  urandom_seed :: nat

record predict_input =
  prompt :: string
  aspect_ratio :: string
  image_path :: "string option"
  prompt_strength :: real
  num_outputs :: nat
  num_inference_steps :: int
  guidance_scale :: real
  seed :: "nat option"
  output_format :: string
  output_quality :: int
  hf_loras :: "string list option"
  lora_scales :: "real list option"
  disable_safety_checker :: bool

section \<open>load_loras\<close>

definition names :: "string list" where
  "names = map (\<lambda>c. [c]) ''abcdefghijklmnopqrstuvwxyz''"

text \<open>
  \<open>adapter_name = names[count]; count += 1; load_lora_weights(...)\<close>: the three lines
  that end every branch. The index raises \<open>IndexError\<close> past the end of the pool.
\<close>

definition register ::
  "'c predictor \<Rightarrow> nat \<Rightarrow> (string \<Rightarrow> lora_op) \<Rightarrow> (py_error + nat) \<times> 'c predictor" where
  "register st count mk =
     (if count < length names
      then (Inr (Suc count), st\<lparr>lora_log := lora_log st @ [mk (names ! count)]\<rparr>)
      else (Inl IndexError, st))"

definition invalid_lora_msg :: string where
  "invalid_lora_msg =
     ''Invalid lora, must be either a: HuggingFace path, Replicate model.tar, or a URL to a .safetensors file: ''"

text \<open>
  One turn of the loop of \<open>load_loras\<close> (lines 244 to 292): the new value of \<open>count\<close>
  or the exception, and the predictor afterwards.
\<close>

definition load_one ::
  "('c, 'img, 'ten) env \<Rightarrow> 'c predictor \<Rightarrow> nat \<Rightarrow> string \<Rightarrow> (py_error + nat) \<times> 'c predictor" where
  "load_one env st count hf_lora =
     (if is_hf_slug hf_lora then
        register st count (\<lambda>a. LoadLora hf_lora (Some a) None)
      else if is_replicate_tar hf_lora then
        (case ensure env (cache st) hf_lora False of
           (Inl e, c) \<Rightarrow> (Inl e, st\<lparr>cache := c\<rparr>)
         | (Inr local_weights_cache, c) \<Rightarrow>
             register (st\<lparr>cache := c\<rparr>) count
               (\<lambda>a. LoadLora
                  (path_join local_weights_cache ''output/flux_train_replicate/lora.safetensors'')
                  (Some a) None))
      else if is_hf_url hf_lora then
        (case hf_url_slug hf_lora of
           None \<Rightarrow> (Inl AttributeError, st)
         | Some huggingface_slug \<Rightarrow>
             register st count
               (\<lambda>a. LoadLora huggingface_slug None (Some (last_segment hf_lora))))
      else if is_civitai hf_lora then
        (case ensure env (cache st) hf_lora True of
           (Inl e, c) \<Rightarrow> (Inl e, st\<lparr>cache := c\<rparr>)
         | (Inr lora_path, c) \<Rightarrow>
             register (st\<lparr>cache := c\<rparr>) count (\<lambda>a. LoadLora lora_path (Some a) None))
      else if ends_with ''.safetensors'' hf_lora then
        (case ensure env (cache st) hf_lora True of
           (Inl e, c) \<Rightarrow> (Inr count, st\<lparr>cache := c\<rparr>)
         | (Inr lora_path, c) \<Rightarrow>
             register (st\<lparr>cache := c\<rparr>) count (\<lambda>a. LoadLora lora_path (Some a) None))
      else (Inl (PyException (invalid_lora_msg @ hf_lora)), st))"

fun load_loop ::
  "('c, 'img, 'ten) env \<Rightarrow> 'c predictor \<Rightarrow> nat \<Rightarrow> string list \<Rightarrow> (py_error + nat) \<times> 'c predictor" where
  "load_loop env st count [] = (Inr count, st)"
| "load_loop env st count (hf_lora # rest) =
     (case load_one env st count hf_lora of
        (Inl e, st') \<Rightarrow> (Inl e, st')
      | (Inr count', st') \<Rightarrow> load_loop env st' count' rest)"

definition load_loras ::
  "('c, 'img, 'ten) env \<Rightarrow> 'c predictor \<Rightarrow> string list \<Rightarrow> real list \<Rightarrow> (py_error + unit) \<times> 'c predictor" where
  "load_loras env st loras scales =
     (case load_loop env st 0 loras of
        (Inl e, st') \<Rightarrow> (Inl e, st')
      | (Inr count, st') \<Rightarrow>
          (Inr (),
           st'\<lparr>last_loaded_loras := Some loras,
               lora_log := lora_log st' @ [SetAdapters (take count names) (take count scales)]\<rparr>))"

section \<open>predict\<close>

definition ASPECT_RATIOS :: "(string \<times> nat \<times> nat) list" where
  "ASPECT_RATIOS =
     [(''1:1'', (1024, 1024)), (''16:9'', (1344, 768)), (''21:9'', (1536, 640)),
      (''3:2'', (1216, 832)), (''2:3'', (832, 1216)), (''4:5'', (896, 1088)),
      (''5:4'', (1088, 896)), (''3:4'', (896, 1152)), (''4:3'', (1152, 896)),
      (''9:16'', (768, 1344)), (''9:21'', (640, 1536))]"

definition aspect_ratio_to_width_height :: "string \<Rightarrow> py_error + nat \<times> nat" where
  "aspect_ratio_to_width_height ar =
     (case map_of ASPECT_RATIOS ar of None \<Rightarrow> Inl (KeyError ar) | Some wh \<Rightarrow> Inr wh)"

text \<open>
  Lines 403 to 422 of \<open>predict\<close>. \<open>if hf_loras\<close> and \<open>not lora_scales\<close> test for
  \<open>None\<close> and for the empty list alike. When the scales are two or more and fewer than the
  LoRAs, no branch is taken and nothing is loaded after the unload.
\<close>

definition predict_loras ::
  "('c, 'img, 'ten) env \<Rightarrow> 'c predictor \<Rightarrow> string list option \<Rightarrow> real list option
     \<Rightarrow> (py_error + unit) \<times> 'c predictor" where
  "predict_loras env st loras_opt scales_opt =
     (let loras = (case loras_opt of None \<Rightarrow> [] | Some l \<Rightarrow> l);
          scales = (case scales_opt of None \<Rightarrow> [] | Some s \<Rightarrow> s)
      in if loras \<noteq> [] then
           (if Some loras \<noteq> last_loaded_loras st then
              (let st1 = st\<lparr>lora_log := lora_log st @ [Unload]\<rparr>
               in if scales = [] then
                    load_loras env st1 loras (replicate (length loras) 0.8)
                  else if length scales = 1 then
                    load_loras env st1 loras (replicate (length loras) (scales ! 0))
                  else if length loras \<le> length scales then
                    load_loras env st1 loras scales
                  else (Inr (), st1))
            else (Inr (), st))
         else (Inr (), st\<lparr>lora_log := lora_log st @ [Unload]\<rparr>))"

text \<open>\<open>needle in s\<close> for strings.\<close>

fun starts_with :: "string \<Rightarrow> string \<Rightarrow> bool" where
  "starts_with [] s = True"
| "starts_with (p # ps) [] = False"
| "starts_with (p # ps) (c # cs) = (p = c \<and> starts_with ps cs)"

fun contains_str :: "string \<Rightarrow> string \<Rightarrow> bool" where
  "contains_str needle [] = (needle = [])"
| "contains_str needle (c # cs) = (starts_with needle (c # cs) \<or> contains_str needle cs)"

definition shape_error_text :: string where
  "shape_error_text = ''mat1 and mat2 shapes cannot be multiplied''"

text \<open>
  Lines 438 to 460: the call of the pipeline and its one retry. \<open>except RuntimeError\<close>
  catches nothing else, so any other exception leaves \<open>predict\<close> as it is.
\<close>

definition predict_inference ::
  "('c, 'img, 'ten) env \<Rightarrow> 'c predictor \<Rightarrow> 'ten pipe_args \<Rightarrow> (py_error + 'img list) \<times> 'c predictor" where
  "predict_inference env st args =
     (let st1 = st\<lparr>infer_calls := Suc (infer_calls st)\<rparr>
      in case pipe_call env st args of
           Inr output \<Rightarrow> (Inr output, st1)
         | Inl e \<Rightarrow>
             (case e of
                RuntimeError msg \<Rightarrow>
                  if contains_str shape_error_text msg then
                    (let st2 = st1\<lparr>attn_patched := True\<rparr>
                     in (pipe_call env st2 args, st2\<lparr>infer_calls := Suc (infer_calls st2)\<rparr>))
                  else (Inl e, st1)
              | _ \<Rightarrow> (Inl e, st1)))"

text \<open>The decimal digits of a number, as an f-string prints it.\<close>

fun str_nat :: "nat \<Rightarrow> string" where
  "str_nat n =
     (if n < 10 then [''0123456789'' ! n]
      else str_nat (n div 10) @ [''0123456789'' ! (n mod 10)])"

definition output_path :: "nat \<Rightarrow> string \<Rightarrow> string" where
  "output_path i fmt = ''/tmp/out-'' @ str_nat i @ ''.'' @ fmt"

text \<open>
  The loop of lines 466 to 475 over \<open>enumerate(output.images)\<close>, from index \<open>i\<close> on.
  \<open>has_nsfw_content[i]\<close> is read only when the safety checker is enabled, and raises
  \<open>IndexError\<close> past the end of the list.
\<close>

fun save_outputs ::
  "bool \<Rightarrow> bool list \<Rightarrow> string \<Rightarrow> int \<Rightarrow> nat \<Rightarrow> 'img list \<Rightarrow> string list \<Rightarrow> 'c predictor
     \<Rightarrow> (py_error + string list) \<times> 'c predictor" where
  "save_outputs disabled flags fmt quality i [] output_paths st = (Inr output_paths, st)"
| "save_outputs disabled flags fmt quality i (img # rest) output_paths st =
     (if \<not> disabled \<and> \<not> i < length flags then (Inl IndexError, st)
      else if \<not> disabled \<and> flags ! i then
        save_outputs disabled flags fmt quality (Suc i) rest output_paths st
      else
        save_outputs disabled flags fmt quality (Suc i) rest
          (output_paths @ [output_path i fmt])
          (st\<lparr>saved := saved st
                  @ [(output_path i fmt, if fmt \<noteq> ''png'' then Some quality else None)]\<rparr>))"

definition nsfw_msg :: string where
  "nsfw_msg = ''NSFW content detected. Try running it again, or try a different prompt.''"

text \<open>Lines 462 to 480.\<close>

definition predict_outputs ::
  "('c, 'img, 'ten) env \<Rightarrow> 'c predictor \<Rightarrow> predict_input \<Rightarrow> 'img list
     \<Rightarrow> (py_error + string list) \<times> 'c predictor" where
  "predict_outputs env st inp images =
     (case (if disable_safety_checker inp then Inr [] else safety_checker env images) of
        Inl e \<Rightarrow> (Inl e, st)
      | Inr has_nsfw_content \<Rightarrow>
          (case save_outputs (disable_safety_checker inp) has_nsfw_content
                  (output_format inp) (output_quality inp) 0 images [] st of
             (Inl e, st') \<Rightarrow> (Inl e, st')
           | (Inr output_paths, st') \<Rightarrow>
               if length output_paths = 0 then (Inl (PyException nsfw_msg), st')
               else (Inr output_paths, st')))"

text \<open>
  Lines 357 to 401 and 424 to 435: the arguments of the pipeline call. The input image is
  read only in image-to-image mode.
\<close>

definition predict_args ::
  "('c, 'img, 'ten) env \<Rightarrow> predict_input \<Rightarrow> py_error + 'ten pipe_args" where
  "predict_args env inp =
     (case aspect_ratio_to_width_height (aspect_ratio inp) of
        Inl e \<Rightarrow> Inl e
      | Inr (width, height) \<Rightarrow>
          (case (case image_path inp of
                   None \<Rightarrow> Inr None
                 | Some p \<Rightarrow> (case get_image env p of Inl e \<Rightarrow> Inl e | Inr t \<Rightarrow> Inr (Some t))) of
             Inl e \<Rightarrow> Inl e
           | Inr init_image \<Rightarrow>
               Inr \<lparr>use_img2img = (init_image \<noteq> None),
                    arg_prompt = replicate (num_outputs inp) (truncate_prompt (prompt inp) 75),
                    arg_guidance_scale = guidance_scale inp,
                    arg_seed = (case seed inp of None \<Rightarrow> urandom_seed env | Some s \<Rightarrow> s),
                    arg_num_inference_steps = num_inference_steps inp,
                    arg_width = width,
                    arg_height = height,
                    arg_image = init_image,
                    arg_strength = (if init_image \<noteq> None then Some (prompt_strength inp) else None),
                    arg_joint_attention_scale =
                      (case hf_loras inp of
                         None \<Rightarrow> None
                       | Some l \<Rightarrow> if l \<noteq> [] then Some 1.0 else None)\<rparr>))"

definition predict ::
  "('c, 'img, 'ten) env \<Rightarrow> 'c predictor \<Rightarrow> predict_input \<Rightarrow> (py_error + string list) \<times> 'c predictor" where
  "predict env st inp =
     (case predict_args env inp of
        Inl e \<Rightarrow> (Inl e, st)
      | Inr args \<Rightarrow>
          (case predict_loras env st (hf_loras inp) (lora_scales inp) of
             (Inl e, st1) \<Rightarrow> (Inl e, st1)
           | (Inr u, st1) \<Rightarrow>
               (case predict_inference env st1 args of
                  (Inl e, st2) \<Rightarrow> (Inl e, st2)
                | (Inr images, st2) \<Rightarrow> predict_outputs env st2 inp images)))"

section \<open>download_weights\<close>

text \<open>
  \<open>download_weights\<close> only calls the operating system, \<open>requests\<close> and
  \<open>tarfile\<close>. Its model is the log of the calls it makes, in order:
  \<open>os.makedirs(path, exist_ok=True)\<close>, the creation of the temporary file by
  \<open>NamedTemporaryFile(suffix=".tar", delete=False)\<close> with the name it gets,
  \<open>requests.get(url, stream=True)\<close>, \<open>open(path, 'wb')\<close>, \<open>write(chunk)\<close> on the
  file opened at a path, \<open>flush()\<close>, \<open>tarfile.open(name, "r")\<close> and
  \<open>extractall(dest)\<close> on the archive opened from a name. The closing of the files at
  the end of the \<open>with\<close> blocks is not recorded.
\<close>

datatype os_op =
    MakeDirs string
  | CreateTemp string
  | HttpGet string
  | OpenWrite string
  | Write string string
  | Flush string
  | TarOpen string
  | ExtractAll string string

text \<open>
  Whether a call raises is decided outside the program: \<open>os_raises io calls op\<close> is the
  exception that the call \<open>op\<close> raises after the calls \<open>calls\<close>, or \<open>None\<close> when it
  returns. \<open>http_chunks io url\<close> are the chunks that \<open>iter_content(chunk_size=8192)\<close>
  yields for the response; an exception raised while the body is read ends the loop as
  one raised by the \<open>write\<close> of that turn does. \<open>temp_name\<close> is the name of the
  temporary file.
\<close>

record net =
  os_raises :: "os_op list \<Rightarrow> os_op \<Rightarrow> py_error option"
  http_chunks :: "string \<Rightarrow> string list"
  temp_name :: string

text \<open>\<open>os.path.dirname(p)\<close> on a POSIX system.\<close>

definition os_dirname :: "string \<Rightarrow> string" where
  "os_dirname p =
     (let head = rev (dropWhile (\<lambda>c. c \<noteq> CHR ''/'') (rev p))
      in if head \<noteq> [] \<and> (\<exists>c \<in> set head. c \<noteq> CHR ''/'')
         then rev (dropWhile (\<lambda>c. c = CHR ''/'') (rev head))
         else head)"

text \<open>One call: it raises and leaves the log as it is, or returns and is recorded.\<close>

definition perform :: "net \<Rightarrow> os_op \<Rightarrow> os_op list \<Rightarrow> (py_error + unit) \<times> os_op list" where
  "perform io op calls =
     (case os_raises io calls op of
        Some e \<Rightarrow> (Inl e, calls)
      | None \<Rightarrow> (Inr (), calls @ [op]))"

text \<open>\<open>for chunk in response.iter_content(chunk_size=8192): f.write(chunk)\<close>\<close>

fun write_chunks ::
  "net \<Rightarrow> string \<Rightarrow> string list \<Rightarrow> os_op list \<Rightarrow> (py_error + unit) \<times> os_op list" where
  "write_chunks io f [] calls = (Inr (), calls)"
| "write_chunks io f (chunk # rest) calls =
     (case perform io (Write f chunk) calls of
        (Inl e, calls1) \<Rightarrow> (Inl e, calls1)
      | (Inr u, calls1) \<Rightarrow> write_chunks io f rest calls1)"

text \<open>Lines 88 to 111, without the printing and the timing.\<close>

definition download_weights ::
  "net \<Rightarrow> os_op list \<Rightarrow> string \<Rightarrow> string \<Rightarrow> bool \<Rightarrow> (py_error + unit) \<times> os_op list" where
  "download_weights io calls url dest file =
     (if \<not> file then
        (case perform io (MakeDirs dest) calls of
           (Inl e, calls1) \<Rightarrow> (Inl e, calls1)
         | (Inr u, calls1) \<Rightarrow>
        (case perform io (CreateTemp (temp_name io)) calls1 of
           (Inl e, calls2) \<Rightarrow> (Inl e, calls2)
         | (Inr u, calls2) \<Rightarrow>
        (case perform io (HttpGet url) calls2 of
           (Inl e, calls3) \<Rightarrow> (Inl e, calls3)
         | (Inr u, calls3) \<Rightarrow>
        (case write_chunks io (temp_name io) (http_chunks io url) calls3 of
           (Inl e, calls4) \<Rightarrow> (Inl e, calls4)
         | (Inr u, calls4) \<Rightarrow>
        (case perform io (Flush (temp_name io)) calls4 of
           (Inl e, calls5) \<Rightarrow> (Inl e, calls5)
         | (Inr u, calls5) \<Rightarrow>
        (case perform io (TarOpen (temp_name io)) calls5 of
           (Inl e, calls6) \<Rightarrow> (Inl e, calls6)
         | (Inr u, calls6) \<Rightarrow> perform io (ExtractAll (temp_name io) dest) calls6))))))
      else
        (let dirname = os_dirname dest
         in case (if dirname \<noteq> [] then perform io (MakeDirs dirname) calls else (Inr (), calls)) of
              (Inl e, calls1) \<Rightarrow> (Inl e, calls1)
            | (Inr u, calls1) \<Rightarrow>
           (case perform io (HttpGet url) calls1 of
              (Inl e, calls2) \<Rightarrow> (Inl e, calls2)
            | (Inr u, calls2) \<Rightarrow>
           (case perform io (OpenWrite dest) calls2 of
              (Inl e, calls3) \<Rightarrow> (Inl e, calls3)
            | (Inr u, calls3) \<Rightarrow> write_chunks io dest (http_chunks io url) calls3))))"

text \<open>The bytes that the \<open>write\<close> calls of a log put into the file opened at a path.\<close>

fun bytes_written :: "string \<Rightarrow> os_op list \<Rightarrow> string" where
  "bytes_written f [] = []"
| "bytes_written f (Write g chunk # ops) =
     (if g = f then chunk @ bytes_written f ops else bytes_written f ops)"
| "bytes_written f (op # ops) = bytes_written f ops"

fun is_tar_op :: "os_op \<Rightarrow> bool" where
  "is_tar_op (TarOpen name) = True"
| "is_tar_op (ExtractAll name dest) = True"
| "is_tar_op op = False"

text \<open>
  Two sample networks in which every response is the two chunks \<open>ab\<close> and \<open>cd\<close>: in
  one no call raises, in the other a path that ends in a slash cannot be opened for
  writing.
\<close>

definition sample_net :: net where
  "sample_net =
     \<lparr>os_raises = (\<lambda>calls op. None),
      http_chunks = (\<lambda>url. [''ab'', ''cd'']),
      temp_name = ''/tmp/tmpq1.tar''\<rparr>"

definition strict_net :: net where
  "strict_net =
     sample_net
       \<lparr>os_raises := (\<lambda>calls op.
          case op of
            OpenWrite path \<Rightarrow>
              if path \<noteq> [] \<and> last path = CHR ''/'' then Some (OtherError ''IsADirectoryError'')
              else None
          | _ \<Rightarrow> None)\<rparr>"

section \<open>The decision table of the specification\<close>

text \<open>
  The specification describes the resolution of an identifier as a first-match decision
  table over the shapes of identifiers. \<open>first_shape\<close> is that table, written from the
  specification's words over the tests of the source, to be compared with \<open>load_one\<close>.
\<close>

datatype lora_shape = HubSlug | ReplicateTar | HuggingFaceUrl | CivitaiUrl | SafetensorsFile

fun has_shape :: "lora_shape \<Rightarrow> string \<Rightarrow> bool" where
  "has_shape HubSlug s = is_hf_slug s"
| "has_shape ReplicateTar s = is_replicate_tar s"
| "has_shape HuggingFaceUrl s = is_hf_url s"
| "has_shape CivitaiUrl s = is_civitai s"
| "has_shape SafetensorsFile s = ends_with ''.safetensors'' s"

definition first_shape :: "string \<Rightarrow> lora_shape option" where
  "first_shape s =
     find (\<lambda>k. has_shape k s) [HubSlug, ReplicateTar, HuggingFaceUrl, CivitaiUrl, SafetensorsFile]"

section \<open>Sample runs\<close>

text \<open>The predictor as \<open>setup\<close> leaves it, with a cache that has no state.\<close>

definition fresh_predictor :: "unit predictor" where
  "fresh_predictor =
     \<lparr>last_loaded_loras = None, lora_log = [], attn_patched = False, infer_calls = 0,
      saved = [], cache = ()\<rparr>"

text \<open>
  A sample environment: a download fails when the URL mentions \<open>unreachable\<close> and
  otherwise lands under \<open>/cache/\<close>; an image is a number, the pipeline returns the images
  \<open>0, 1, ...\<close>, one for each prompt, and the safety checker flags the odd ones.
\<close>

definition sample_env :: "(unit, nat, unit) env" where
  "sample_env =
     \<lparr>ensure = (\<lambda>c url file.
         (if contains_str ''unreachable'' url then Inl (OtherError ''download failed'')
          else Inr (''/cache/'' @ last_segment url), c)),
      get_image = (\<lambda>p. Inr ()),
      pipe_call = (\<lambda>st args. Inr [0 ..< length (arg_prompt args)]),
      safety_checker = (\<lambda>images. Inr (map odd images)),
      urandom_seed = 7\<rparr>"

definition sample_input :: predict_input where
  "sample_input =
     \<lparr>prompt = ''a pony'', aspect_ratio = ''1:1'', image_path = None, prompt_strength = 0.8,
      num_outputs = 1, num_inference_steps = 28, guidance_scale = 3.5, seed = None,
      output_format = ''webp'', output_quality = 80, hf_loras = None, lora_scales = None,
      disable_safety_checker = True\<rparr>"

text \<open>
  A request whose first LoRA cannot be downloaded and whose second LoRA is a
  \<open>huggingface.co\<close> URL, with one scale for each.
\<close>

definition skipped_input :: predict_input where
  "skipped_input =
     sample_input
       \<lparr>hf_loras := Some [''https://unreachable.example/x.safetensors'',
                           ''https://huggingface.co/owner/style/resolve/main/style.safetensors''],
        lora_scales := Some [0.1, 0.9]\<rparr>"

text \<open>The predictor after a request for the one LoRA \<open>owner/one\<close> at the default scale.\<close>

definition loaded_predictor :: "unit predictor" where
  "loaded_predictor =
     fresh_predictor
       \<lparr>last_loaded_loras := Some [''owner/one''],
        lora_log := [Unload, LoadLora ''owner/one'' (Some ''a'') None, SetAdapters [''a''] [0.8]]\<rparr>"

text \<open>The arguments that \<open>predict\<close> builds for \<open>sample_input\<close>.\<close>

definition sample_args :: "unit pipe_args" where
  "sample_args =
     \<lparr>use_img2img = False, arg_prompt = [''a pony''], arg_guidance_scale = 3.5, arg_seed = 7,
      arg_num_inference_steps = 28, arg_width = 1024, arg_height = 1024, arg_image = None,
      arg_strength = None, arg_joint_attention_scale = None\<rparr>"

definition shape_error :: py_error where
  "shape_error = RuntimeError ''mat1 and mat2 shapes cannot be multiplied (77x2048 and 768x320)''"

text \<open>
  Three more pipelines: one that raises the shape error until the attention processor is
  replaced, one that raises it always, and one that is out of memory.
\<close>

definition retry_env :: "(unit, nat, unit) env" where
  "retry_env =
     sample_env\<lparr>pipe_call := (\<lambda>st args. if attn_patched st then Inr [0] else Inl shape_error)\<rparr>"

definition broken_env :: "(unit, nat, unit) env" where
  "broken_env = sample_env\<lparr>pipe_call := (\<lambda>st args. Inl shape_error)\<rparr>"

definition oom_env :: "(unit, nat, unit) env" where
  "oom_env = sample_env\<lparr>pipe_call := (\<lambda>st args. Inl (RuntimeError ''CUDA out of memory''))\<rparr>"

text \<open>A safety checker that flags every image.\<close>

definition strict_env :: "(unit, nat, unit) env" where
  "strict_env = sample_env\<lparr>safety_checker := (\<lambda>images. Inr (map (\<lambda>i. True) images))\<rparr>"

text \<open>A prompt of 76 words.\<close>

definition long_prompt :: string where
  "long_prompt = concat (replicate 76 ''w '')"

section \<open>Facts about truncate_prompt\<close>

lemma is_space_blank: "is_space (CHR '' '')"
  by (simp add: is_space_def)

lemma split_acc_words:
  "\<forall>c \<in> set w. \<not> is_space c \<Longrightarrow> \<forall>v \<in> set (split_acc w s). is_word v"
proof (induction s arbitrary: w)
  case Nil
  then show ?case by (simp add: is_word_def)
next
  case (Cons c cs)
  have empty: "\<forall>v \<in> set (split_acc [] cs). is_word v"
    by (rule Cons.IH) simp
  show ?case
  proof (cases "is_space c")
    case True
    with Cons.prems empty show ?thesis by (simp add: is_word_def)
  next
    case False
    with Cons.prems have "\<forall>x \<in> set (w @ [c]). \<not> is_space x" by simp
    then have "\<forall>v \<in> set (split_acc (w @ [c]) cs). is_word v" by (rule Cons.IH)
    with False show ?thesis by simp
  qed
qed

lemma split_ws_words: "\<forall>v \<in> set (split_ws s). is_word v"
  unfolding split_ws_def by (rule split_acc_words) simp

lemma split_acc_run:
  "\<forall>c \<in> set v. \<not> is_space c \<Longrightarrow> split_acc w (v @ s) = split_acc (w @ v) s"
  by (induction v arbitrary: w) simp_all

lemma split_acc_join:
  "\<forall>v \<in> set ws. is_word v \<Longrightarrow> is_word w \<Longrightarrow> split_acc [] (join_sp (w # ws)) = w # ws"
proof (induction ws arbitrary: w)
  case Nil
  then have "split_acc [] (w @ []) = split_acc ([] @ w) []"
    by (intro split_acc_run) (simp add: is_word_def)
  with Nil show ?case by (simp add: is_word_def)
next
  case (Cons v ws)
  from Cons.prems have w: "\<forall>c \<in> set w. \<not> is_space c" "w \<noteq> []"
    by (simp_all add: is_word_def)
  have "split_acc [] (w @ CHR '' '' # join_sp (v # ws))
          = split_acc ([] @ w) (CHR '' '' # join_sp (v # ws))"
    using w(1) by (rule split_acc_run)
  also have "\<dots> = w # split_acc [] (join_sp (v # ws))"
    using w(2) by (simp add: is_space_blank)
  also have "split_acc [] (join_sp (v # ws)) = v # ws"
    using Cons.prems by (intro Cons.IH) simp_all
  finally show ?case by simp
qed

lemma split_ws_join: "\<forall>v \<in> set ws. is_word v \<Longrightarrow> split_ws (join_sp ws) = ws"
  by (cases ws) (simp_all add: split_ws_def split_acc_join)

lemma split_ws_join_take: "split_ws (join_sp (take n (split_ws s))) = take n (split_ws s)"
proof (rule split_ws_join)
  show "\<forall>v \<in> set (take n (split_ws s)). is_word v"
    using split_ws_words [of s] by (meson in_set_takeD)
qed

text \<open>
  C10. \<open>truncate_prompt\<close> with the default limit of 75: the result has at most 75
  whitespace-separated words; a prompt of at most 75 words is returned unchanged; a longer
  one becomes its first 75 words joined by single spaces; and truncating twice is
  truncating once.
\<close>

theorem truncate_prompt_75:
  "length (split_ws (truncate_prompt p 75)) \<le> 75
   \<and> (length (split_ws p) \<le> 75 \<longrightarrow> truncate_prompt p 75 = p)
   \<and> (75 < length (split_ws p) \<longrightarrow>
        truncate_prompt p 75 = join_sp (take 75 (split_ws p))
        \<and> split_ws (truncate_prompt p 75) = take 75 (split_ws p))
   \<and> truncate_prompt (truncate_prompt p 75) 75 = truncate_prompt p 75"
proof (cases "length (split_ws p) \<le> 75")
  case True
  then have "truncate_prompt p 75 = p"
    by (simp add: truncate_prompt_def Let_def)
  with True show ?thesis by simp
next
  case False
  then have cut: "truncate_prompt p 75 = join_sp (take 75 (split_ws p))"
    by (simp add: truncate_prompt_def Let_def py_take_def)
  have words: "split_ws (truncate_prompt p 75) = take 75 (split_ws p)"
    unfolding cut by (rule split_ws_join_take)
  have len: "length (split_ws (truncate_prompt p 75)) \<le> 75"
    unfolding words by simp
  then have "truncate_prompt (truncate_prompt p 75) 75 = truncate_prompt p 75"
    by (simp add: truncate_prompt_def [of "truncate_prompt p 75"] Let_def)
  with False cut words len show ?thesis by simp
qed

theorem truncate_prompt_75_witness:
  "length (split_ws ''a  b'') \<le> 75 \<and> truncate_prompt ''a  b'' 75 = ''a  b''
   \<and> 75 < length (split_ws long_prompt)
   \<and> split_ws (truncate_prompt long_prompt 75) = replicate 75 ''w''"
proof -
  have short: "length (split_ws ''a  b'') \<le> 75"
    by (simp add: split_ws_def is_space_def)
  have long: "75 < length (split_ws long_prompt)"
    by code_simp
  have first: "take 75 (split_ws long_prompt) = replicate 75 ''w''"
    by code_simp
  from truncate_prompt_75 [of "''a  b''"] short
  have r1: "truncate_prompt ''a  b'' 75 = ''a  b''" by blast
  from truncate_prompt_75 [of long_prompt] long
  have "split_ws (truncate_prompt long_prompt 75) = take 75 (split_ws long_prompt)" by blast
  with first have r2: "split_ws (truncate_prompt long_prompt 75) = replicate 75 ''w''" by simp
  from short long r1 r2 show ?thesis by blast
qed

section \<open>Facts about load_loras\<close>

lemma length_names: "length names = 26"
  by (simp add: names_def)

lemma register_ok:
  "count < length names \<Longrightarrow>
     register st count mk = (Inr (Suc count), st\<lparr>lora_log := lora_log st @ [mk (names ! count)]\<rparr>)"
  by (simp add: register_def)

lemma register_Inr:
  "register st count mk = (Inr c', st') \<Longrightarrow>
     c' = Suc count \<and> count < length names
     \<and> st' = st\<lparr>lora_log := lora_log st @ [mk (names ! count)]\<rparr>"
  by (auto simp: register_def split: if_splits)

lemma load_one_invalid:
  "\<not> is_hf_slug hf \<Longrightarrow> \<not> is_replicate_tar hf \<Longrightarrow> \<not> is_hf_url hf \<Longrightarrow> \<not> is_civitai hf
     \<Longrightarrow> \<not> ends_with ''.safetensors'' hf
     \<Longrightarrow> load_one env st count hf = (Inl (PyException (invalid_lora_msg @ hf)), st)"
  by (simp add: load_one_def)

lemma load_loop_append:
  "load_loop env st count (xs @ ys) =
     (case load_loop env st count xs of
        (Inl e, st') \<Rightarrow> (Inl e, st')
      | (Inr count', st') \<Rightarrow> load_loop env st' count' ys)"
  by (induction xs arbitrary: st count) (auto split: prod.splits sum.splits)

lemma load_loop_stops:
  assumes member: "hf \<in> set loras"
    and inv: "\<And>st count. \<exists>e. fst (load_one env st count hf) = Inl e"
  shows "\<exists>e. fst (load_loop env st count loras) = Inl e"
  using member
proof (induction loras arbitrary: st count)
  case Nil
  then show ?case by simp
next
  case (Cons x xs)
  obtain r st' where one: "load_one env st count x = (r, st')"
    by (cases "load_one env st count x")
  show ?case
  proof (cases r)
    case (Inl e)
    with one show ?thesis by simp
  next
    case (Inr c')
    with one inv [of st count] have "x \<noteq> hf" by auto
    with Cons.prems have "hf \<in> set xs" by simp
    then have "\<exists>e. fst (load_loop env st' c' xs) = Inl e" by (rule Cons.IH)
    with one Inr show ?thesis by simp
  qed
qed

lemma load_one_Inr:
  assumes "load_one env st c hf = (Inr c', st')"
  shows "last_loaded_loras st' = last_loaded_loras st \<and> attn_patched st' = attn_patched st
     \<and> infer_calls st' = infer_calls st \<and> saved st' = saved st
     \<and> ((c' = c \<and> lora_log st' = lora_log st)
        \<or> (c' = Suc c \<and> c < length names
           \<and> (\<exists>src an wn. lora_log st' = lora_log st @ [LoadLora src an wn]
                \<and> (an = None \<or> an = Some (names ! c)))))"
  using assms
  by (auto simp: load_one_def split: if_splits prod.splits sum.splits option.splits
      dest!: register_Inr)

text \<open>
  Outside the branch for \<open>huggingface.co\<close> URLs, a turn that loads passes the letter of
  its slot to \<open>load_lora_weights\<close>.
\<close>

lemma load_one_named:
  assumes "load_one env st c hf = (Inr c', st')" and "first_shape hf \<noteq> Some HuggingFaceUrl"
  shows "(c' = c \<and> lora_log st' = lora_log st)
     \<or> (c' = Suc c \<and> c < length names
         \<and> (\<exists>src wn. lora_log st' = lora_log st @ [LoadLora src (Some (names ! c)) wn]))"
  using assms
  by (auto simp: load_one_def first_shape_def
      split: if_splits prod.splits sum.splits option.splits dest!: register_Inr)

lemma load_loop_Inr:
  assumes "load_loop env st c loras = (Inr k, st')"
  shows "last_loaded_loras st' = last_loaded_loras st \<and> attn_patched st' = attn_patched st
     \<and> infer_calls st' = infer_calls st \<and> saved st' = saved st
     \<and> c \<le> k \<and> k \<le> c + length loras \<and> (c \<le> length names \<longrightarrow> k \<le> length names)
     \<and> (\<exists>loads. lora_log st' = lora_log st @ loads \<and> length loads = k - c)"
  using assms
proof (induction loras arbitrary: st c)
  case Nil
  then show ?case by simp
next
  case (Cons hf rest)
  from Cons.prems obtain c1 st1 where one: "load_one env st c hf = (Inr c1, st1)"
    and loop: "load_loop env st1 c1 rest = (Inr k, st')"
    by (auto split: prod.splits sum.splits)
  note step = load_one_Inr [OF one]
  note ih = Cons.IH [OF loop]
  from ih obtain loads where loads: "lora_log st' = lora_log st1 @ loads"
    "length loads = k - c1" by blast
  from step consider (skip) "c1 = c" "lora_log st1 = lora_log st"
    | (load) src an wn where "c1 = Suc c" "c < length names"
        "lora_log st1 = lora_log st @ [LoadLora src an wn]"
    by blast
  then have "\<exists>loads. lora_log st' = lora_log st @ loads \<and> length loads = k - c"
  proof cases
    case skip
    with loads show ?thesis by auto
  next
    case load
    with loads ih have "lora_log st' = lora_log st @ (LoadLora src an wn # loads)"
      "length (LoadLora src an wn # loads) = k - c"
      by auto
    then show ?thesis by blast
  qed
  moreover from step ih have "last_loaded_loras st' = last_loaded_loras st"
    "attn_patched st' = attn_patched st" "infer_calls st' = infer_calls st"
    "saved st' = saved st" by simp_all
  moreover from step ih have "c \<le> k" "k \<le> c + length (hf # rest)"
    "c \<le> length names \<longrightarrow> k \<le> length names" by auto
  ultimately show ?case by blast
qed

text \<open>
  When the loop ends with \<open>count\<close> raised by the length of the list, every turn has
  loaded: the turn for the identifier at position \<open>k\<close> starts with \<open>count = c + k\<close>, and
  its call of \<open>load_lora_weights\<close> is entry \<open>k\<close> of what the loop adds to the log.
\<close>

lemma load_loop_turns:
  assumes whole: "load_loop env st c loras = (Inr (c + length loras), st')"
    and k: "k < length loras"
  shows "\<exists>s s' src an wn.
      load_loop env st c (take k loras) = (Inr (c + k), s)
      \<and> load_one env s (c + k) (loras ! k) = (Inr (Suc (c + k)), s')
      \<and> lora_log s' = lora_log s @ [LoadLora src an wn]
      \<and> lora_log st' ! (length (lora_log st) + k) = LoadLora src an wn"
proof -
  let ?pre = "take k loras" and ?post = "drop (Suc k) loras"
  have split: "loras = ?pre @ loras ! k # ?post"
    using k by (rule id_take_nth_drop)
  obtain r1 s where pre: "load_loop env st c ?pre = (r1, s)"
    by (cases "load_loop env st c ?pre")
  from whole have parts: "load_loop env st c (?pre @ loras ! k # ?post)
      = (Inr (c + length loras), st')"
    using split by simp
  from parts pre obtain c1 where r1: "r1 = Inr c1"
    by (cases r1) (simp_all add: load_loop_append)
  obtain r2 s' where one: "load_one env s c1 (loras ! k) = (r2, s')"
    by (cases "load_one env s c1 (loras ! k)")
  from parts pre r1 one obtain c2 where r2: "r2 = Inr c2"
    by (cases r2) (simp_all add: load_loop_append)
  from parts pre r1 one r2
  have post: "load_loop env s' c2 ?post = (Inr (c + length loras), st')"
    by (simp add: load_loop_append)
  from load_loop_Inr [OF pre [unfolded r1]] k
  have b1: "c1 \<le> c + k" and log1: "\<exists>loads. lora_log s = lora_log st @ loads \<and> length loads = c1 - c"
    and lo1: "c \<le> c1"
    by simp_all
  note step = load_one_Inr [OF one [unfolded r2]]
  from step have b2: "c2 \<le> Suc c1" by auto
  from load_loop_Inr [OF post] k
  have b3: "c + length loras \<le> c2 + (length loras - Suc k)"
    and log3: "\<exists>loads. lora_log st' = lora_log s' @ loads"
    by auto
  from b1 b2 b3 k have c1: "c1 = c + k" and c2: "c2 = Suc (c + k)" by linarith+
  from step c1 c2 obtain src an wn where op: "lora_log s' = lora_log s @ [LoadLora src an wn]"
    by auto
  from log1 c1 obtain before where before: "lora_log s = lora_log st @ before" "length before = k"
    by auto
  from log3 obtain after where "lora_log st' = lora_log s' @ after" by blast
  with op before have "lora_log st' = lora_log st @ before @ LoadLora src an wn # after"
    by simp
  with before(2) have "lora_log st' ! (length (lora_log st) + k) = LoadLora src an wn"
    by (simp add: nth_append)
  with pre r1 c1 one r2 c2 op show ?thesis by blast
qed

lemma sample_ensure:
  "ensure sample_env c url file =
     (if contains_str ''unreachable'' url then Inl (OtherError ''download failed'')
      else Inr (''/cache/'' @ last_segment url), c)"
  by (simp add: sample_env_def)

lemmas shape_eval = first_shape_def is_hf_slug_def is_replicate_tar_def is_hf_url_def
  is_civitai_def ends_with_def match_plus_def match_scheme_def slug_char_def digit_char_def

lemmas predict_eval = predict_def predict_args_def aspect_ratio_to_width_height_def
  ASPECT_RATIOS_def truncate_prompt_def split_ws_def is_space_def predict_loras_def
  load_loras_def load_one_def shape_eval hf_url_slug_def last_segment_def register_def names_def
  predict_inference_def predict_outputs_def output_path_def sample_env_def sample_input_def
  fresh_predictor_def

section \<open>Facts about predict\<close>


lemma predict_inference_frame:
  "last_loaded_loras (snd (predict_inference env st args)) = last_loaded_loras st
   \<and> lora_log (snd (predict_inference env st args)) = lora_log st
   \<and> saved (snd (predict_inference env st args)) = saved st
   \<and> cache (snd (predict_inference env st args)) = cache st"
  by (simp add: predict_inference_def Let_def split: sum.splits py_error.splits)

lemma save_outputs_frame_disabled:
  "last_loaded_loras (snd (save_outputs True fl fmt q i images paths st)) = last_loaded_loras st
   \<and> lora_log (snd (save_outputs True fl fmt q i images paths st)) = lora_log st
   \<and> infer_calls (snd (save_outputs True fl fmt q i images paths st)) = infer_calls st
   \<and> attn_patched (snd (save_outputs True fl fmt q i images paths st)) = attn_patched st"
  by (induction images arbitrary: i paths st) simp_all

lemma save_outputs_frame_enabled:
  "last_loaded_loras (snd (save_outputs False fl fmt q i images paths st)) = last_loaded_loras st
   \<and> lora_log (snd (save_outputs False fl fmt q i images paths st)) = lora_log st
   \<and> infer_calls (snd (save_outputs False fl fmt q i images paths st)) = infer_calls st
   \<and> attn_patched (snd (save_outputs False fl fmt q i images paths st)) = attn_patched st"
  by (induction images arbitrary: i paths st) simp_all

lemma save_outputs_frame:
  "last_loaded_loras (snd (save_outputs d fl fmt q i images paths st)) = last_loaded_loras st
   \<and> lora_log (snd (save_outputs d fl fmt q i images paths st)) = lora_log st
   \<and> infer_calls (snd (save_outputs d fl fmt q i images paths st)) = infer_calls st
   \<and> attn_patched (snd (save_outputs d fl fmt q i images paths st)) = attn_patched st"
  using save_outputs_frame_disabled save_outputs_frame_enabled by (cases d) simp_all

lemma predict_outputs_frame:
  "last_loaded_loras (snd (predict_outputs env st inp images)) = last_loaded_loras st
   \<and> lora_log (snd (predict_outputs env st inp images)) = lora_log st
   \<and> infer_calls (snd (predict_outputs env st inp images)) = infer_calls st
   \<and> attn_patched (snd (predict_outputs env st inp images)) = attn_patched st"
proof (cases "if disable_safety_checker inp then Inr [] else safety_checker env images")
  case (Inl e)
  then have "predict_outputs env st inp images = (Inl e, st)"
    by (simp add: predict_outputs_def)
  then show ?thesis by simp
next
  case (Inr fl)
  let ?run = "save_outputs (disable_safety_checker inp) fl (output_format inp)
      (output_quality inp) 0 images [] st"
  from Inr have "snd (predict_outputs env st inp images) = snd ?run"
    by (simp add: predict_outputs_def split: prod.splits sum.splits)
  then show ?thesis
    by (simp add: save_outputs_frame)
qed

text \<open>After lines 403 to 422 nothing in \<open>predict\<close> touches the adapters.\<close>

lemma predict_after_loras:
  assumes "predict_args env inp = Inr args"
  shows "lora_log (snd (predict env st inp))
           = lora_log (snd (predict_loras env st (hf_loras inp) (lora_scales inp)))
     \<and> last_loaded_loras (snd (predict env st inp))
           = last_loaded_loras (snd (predict_loras env st (hf_loras inp) (lora_scales inp)))"
proof (cases "predict_loras env st (hf_loras inp) (lora_scales inp)")
  case (Pair r st1)
  show ?thesis
  proof (cases r)
    case (Inl e)
    with Pair assms show ?thesis by (simp add: predict_def)
  next
    case (Inr u)
    obtain r2 st2 where inf: "predict_inference env st1 args = (r2, st2)"
      by (cases "predict_inference env st1 args")
    from predict_inference_frame [of env st1 args] inf
    have f2: "lora_log st2 = lora_log st1" "last_loaded_loras st2 = last_loaded_loras st1"
      by simp_all
    show ?thesis
    proof (cases r2)
      case (Inl e)
      with Pair Inr inf assms f2 show ?thesis by (simp add: predict_def)
    next
      case (Inr images)
      with Pair \<open>r = Inr u\<close> inf assms f2 predict_outputs_frame [of env st2 inp images]
      show ?thesis by (simp add: predict_def)
    qed
  qed
qed

lemma predict_args_fails:
  "predict_args env inp = Inl e \<Longrightarrow> predict env st inp = (Inl e, st)"
  by (simp add: predict_def)

lemma register_calls:
  "infer_calls (snd (register st c mk)) = infer_calls st
   \<and> attn_patched (snd (register st c mk)) = attn_patched st"
  by (simp add: register_def)

lemma load_one_calls:
  "infer_calls (snd (load_one env st c hf)) = infer_calls st
   \<and> attn_patched (snd (load_one env st c hf)) = attn_patched st"
  by (simp add: load_one_def register_calls split: prod.splits sum.splits option.splits)

lemma load_loop_calls:
  "infer_calls (snd (load_loop env st c loras)) = infer_calls st
   \<and> attn_patched (snd (load_loop env st c loras)) = attn_patched st"
proof (induction loras arbitrary: st c)
  case Nil
  show ?case by simp
next
  case (Cons hf rest)
  obtain r st1 where one: "load_one env st c hf = (r, st1)"
    by (cases "load_one env st c hf")
  with load_one_calls [of env st c hf]
  have same: "infer_calls st1 = infer_calls st" "attn_patched st1 = attn_patched st"
    by simp_all
  show ?case
  proof (cases r)
    case (Inl e)
    with one same show ?thesis by simp
  next
    case (Inr c1)
    with one same Cons.IH [of st1 c1] show ?thesis by simp
  qed
qed

lemma load_loras_calls:
  "infer_calls (snd (load_loras env st loras scales)) = infer_calls st
   \<and> attn_patched (snd (load_loras env st loras scales)) = attn_patched st"
  using load_loop_calls [of env st 0 loras]
  by (auto simp: load_loras_def split: prod.splits sum.splits)

lemma predict_loras_calls:
  "infer_calls (snd (predict_loras env st l s)) = infer_calls st
   \<and> attn_patched (snd (predict_loras env st l s)) = attn_patched st"
  by (simp add: predict_loras_def Let_def load_loras_calls)

lemma predict_inference_calls:
  "infer_calls (snd (predict_inference env st args)) \<le> infer_calls st + 2"
  by (simp add: predict_inference_def Let_def split: sum.splits py_error.splits)

lemma predict_calls:
  "infer_calls (snd (predict env st inp)) \<le> infer_calls st + 2"
proof (cases "predict_args env inp")
  case (Inl e)
  then show ?thesis by (simp add: predict_def)
next
  case (Inr args)
  obtain r1 st1 where loras: "predict_loras env st (hf_loras inp) (lora_scales inp) = (r1, st1)"
    by (cases "predict_loras env st (hf_loras inp) (lora_scales inp)")
  with predict_loras_calls [of env st "hf_loras inp" "lora_scales inp"]
  have c1: "infer_calls st1 = infer_calls st" by simp
  obtain r2 st2 where inf: "predict_inference env st1 args = (r2, st2)"
    by (cases "predict_inference env st1 args")
  with predict_inference_calls [of env st1 args] c1
  have c2: "infer_calls st2 \<le> infer_calls st + 2" by simp
  show ?thesis
  proof (cases r1)
    case (Inl e)
    with Inr loras c1 show ?thesis by (simp add: predict_def)
  next
    case u: (Inr u)
    show ?thesis
    proof (cases r2)
      case (Inl e)
      with Inr loras u inf c2 show ?thesis by (simp add: predict_def)
    next
      case images: (Inr images)
      with Inr loras u inf c2 predict_outputs_frame [of env st2 inp images]
      show ?thesis by (simp add: predict_def)
    qed
  qed
qed

lemma upt_from: "[i ..< i + Suc n] = i # [Suc i ..< Suc i + n]"
  by (simp add: upt_rec)

lemma save_outputs_disabled:
  "fst (save_outputs True flags fmt q i images paths st)
     = Inr (paths @ map (\<lambda>j. output_path j fmt) [i ..< i + length images])"
proof (induction images arbitrary: i paths st)
  case Nil
  show ?case by simp
next
  case (Cons img rest)
  have "[i ..< i + length (img # rest)] = i # [Suc i ..< Suc i + length rest]"
    using upt_from [of i "length rest"] by simp
  then show ?case by (simp add: Cons.IH)
qed

lemma save_outputs_enabled:
  "i + length images \<le> length flags \<Longrightarrow>
   fst (save_outputs False flags fmt q i images paths st)
     = Inr (paths @ map (\<lambda>j. output_path j fmt)
                      (filter (\<lambda>j. \<not> flags ! j) [i ..< i + length images]))"
proof (induction images arbitrary: i paths st)
  case Nil
  show ?case by simp
next
  case (Cons img rest)
  have range: "[i ..< i + length (img # rest)] = i # [Suc i ..< Suc i + length rest]"
    using upt_from [of i "length rest"] by simp
  from Cons.prems have "Suc i + length rest \<le> length flags" "i < length flags" by simp_all
  then show ?case unfolding range by (simp add: Cons.IH)
qed

section \<open>Invalid identifiers\<close>

text \<open>
  C5. An identifier that passes none of the five tests of \<open>load_loras\<close> (hub slug,
  Replicate \<open>trained_model.tar\<close> URL, \<open>huggingface.co\<close> URL, Civitai model-download
  URL, ending in \<open>.safetensors\<close>) makes its turn of the loop raise a plain
  \<open>Exception\<close> whose message ends with the identifier. A list that holds such an
  identifier never lets \<open>load_loras\<close> return normally, and when the identifiers before
  it load, the exception \<open>load_loras\<close> raises is that one.
\<close>

theorem load_loras_invalid_raises:
  assumes "\<not> is_hf_slug hf" "\<not> is_replicate_tar hf" "\<not> is_hf_url hf" "\<not> is_civitai hf"
    "\<not> ends_with ''.safetensors'' hf"
  shows "load_one env st count hf = (Inl (PyException (invalid_lora_msg @ hf)), st)
    \<and> (hf \<in> set loras \<longrightarrow> (\<exists>e. fst (load_loras env st loras scales) = Inl e))
    \<and> (fst (load_loop env st 0 pre) = Inr k \<longrightarrow>
         fst (load_loras env st (pre @ hf # post) scales)
           = Inl (PyException (invalid_lora_msg @ hf)))"
proof -
  have one: "load_one env s c hf = (Inl (PyException (invalid_lora_msg @ hf)), s)" for s c
    using assms by (rule load_one_invalid)
  have stops: "\<exists>e. fst (load_loras env st loras scales) = Inl e" if "hf \<in> set loras"
  proof -
    have "\<exists>e. fst (load_loop env st 0 loras) = Inl e"
      using that by (rule load_loop_stops) (simp add: one)
    then show ?thesis
      by (auto simp: load_loras_def split: prod.splits sum.splits)
  qed
  have reach: "fst (load_loras env st (pre @ hf # post) scales)
           = Inl (PyException (invalid_lora_msg @ hf))" if "fst (load_loop env st 0 pre) = Inr k"
  proof -
    note run = that
    obtain s1 where "load_loop env st 0 pre = (Inr k, s1)"
      using run by (cases "load_loop env st 0 pre") auto
    then show ?thesis
      by (simp add: load_loras_def load_loop_append one)
  qed
  from one stops reach show ?thesis by blast
qed

theorem load_loras_invalid_raises_witness:
  "\<not> is_hf_slug ''not a lora'' \<and> \<not> is_replicate_tar ''not a lora''
   \<and> \<not> is_hf_url ''not a lora'' \<and> \<not> is_civitai ''not a lora''
   \<and> \<not> ends_with ''.safetensors'' ''not a lora''
   \<and> fst (load_loop sample_env fresh_predictor 0 [''owner/style'']) = Inr 1
   \<and> fst (load_loras sample_env fresh_predictor [''owner/style'', ''not a lora''] [0.8, 0.8])
       = Inl (PyException (invalid_lora_msg @ ''not a lora''))"
proof -
  have shape: "\<not> is_hf_slug ''not a lora''" "\<not> is_replicate_tar ''not a lora''"
    "\<not> is_hf_url ''not a lora''" "\<not> is_civitai ''not a lora''"
    "\<not> ends_with ''.safetensors'' ''not a lora''"
    by (simp_all add: is_hf_slug_def is_replicate_tar_def is_hf_url_def is_civitai_def
        ends_with_def match_plus_def match_scheme_def slug_char_def)
  have pre: "fst (load_loop sample_env fresh_predictor 0 [''owner/style'']) = Inr 1"
    by (simp add: load_one_def is_hf_slug_def match_plus_def slug_char_def register_def
        length_names)
  from load_loras_invalid_raises [OF shape, where env = sample_env and st = fresh_predictor
      and pre = "[''owner/style'']" and k = 1 and post = "[]" and scales = "[0.8, 0.8]"]
    pre shape
  show ?thesis by simp
qed

section \<open>The dispatch on the shape of an identifier\<close>

text \<open>
  C1, as the specification states it, counts local archive paths among the identifiers
  that are accepted. \<open>load_loras\<close> has no branch for them: the path of a local tar
  archive passes none of its tests and is rejected as an invalid LoRA.
\<close>

theorem local_archive_path_rejected:
  "first_shape ''/weights/lora.tar'' = None
   \<and> fst (load_loras sample_env fresh_predictor [''/weights/lora.tar''] [0.8])
       = Inl (PyException (invalid_lora_msg @ ''/weights/lora.tar''))"
  by (simp add: load_loras_def load_one_def shape_eval)

text \<open>
  C1, amended. Every identifier is dispatched by the first test it passes, in the order
  hub slug, Replicate \<open>trained_model.tar\<close> URL, \<open>huggingface.co\<close> URL, Civitai
  model-download URL, ending in \<open>.safetensors\<close>; an identifier that passes none of
  them (a local archive path among them) is rejected with the invalid-LoRA exception. With
  a free adapter slot, a hub slug is handed to \<open>load_lora_weights\<close> as it is; a
  Replicate URL as the file \<open>output/flux_train_replicate/lora.safetensors\<close> under the
  directory the cache returns; a \<open>huggingface.co\<close> URL with an owner/name part as that
  slug and the last path segment as weight name; a Civitai or \<open>.safetensors\<close> URL as
  the file the cache returns.
\<close>

theorem load_one_first_match:
  "(first_shape hf = None \<longrightarrow>
      load_one env st count hf = (Inl (PyException (invalid_lora_msg @ hf)), st))
   \<and> (first_shape hf = Some HubSlug \<and> count < 26 \<longrightarrow>
      load_one env st count hf
        = (Inr (Suc count),
           st\<lparr>lora_log := lora_log st @ [LoadLora hf (Some (names ! count)) None]\<rparr>))
   \<and> (first_shape hf = Some ReplicateTar \<and> count < 26
        \<and> ensure env (cache st) hf False = (Inr dir, c) \<longrightarrow>
      load_one env st count hf
        = (Inr (Suc count),
           st\<lparr>cache := c,
              lora_log := lora_log st
                @ [LoadLora (path_join dir ''output/flux_train_replicate/lora.safetensors'')
                     (Some (names ! count)) None]\<rparr>))
   \<and> (first_shape hf = Some HuggingFaceUrl \<and> count < 26 \<and> hf_url_slug hf = Some slug \<longrightarrow>
      load_one env st count hf
        = (Inr (Suc count),
           st\<lparr>lora_log := lora_log st @ [LoadLora slug None (Some (last_segment hf))]\<rparr>))
   \<and> ((first_shape hf = Some CivitaiUrl \<or> first_shape hf = Some SafetensorsFile) \<and> count < 26
        \<and> ensure env (cache st) hf True = (Inr path, c) \<longrightarrow>
      load_one env st count hf
        = (Inr (Suc count),
           st\<lparr>cache := c,
              lora_log := lora_log st @ [LoadLora path (Some (names ! count)) None]\<rparr>))"
  by (auto simp: first_shape_def load_one_def register_def length_names split: if_splits)

theorem load_one_first_match_witness:
  "first_shape ''./loras/style.tar.gz'' = None
   \<and> fst (load_one sample_env fresh_predictor 0 ''./loras/style.tar.gz'')
       = Inl (PyException (invalid_lora_msg @ ''./loras/style.tar.gz''))
   \<and> first_shape ''lucataco/flux-emoji'' = Some HubSlug
   \<and> lora_log (snd (load_one sample_env fresh_predictor 0 ''lucataco/flux-emoji''))
       = [LoadLora ''lucataco/flux-emoji'' (Some ''a'') None]
   \<and> first_shape ''https://replicate.delivery/yhqm/abc-DEF_1/trained_model.tar''
       = Some ReplicateTar
   \<and> lora_log (snd (load_one sample_env fresh_predictor 0
          ''https://replicate.delivery/yhqm/abc-DEF_1/trained_model.tar''))
       = [LoadLora ''/cache/trained_model.tar/output/flux_train_replicate/lora.safetensors''
            (Some ''a'') None]
   \<and> first_shape ''https://huggingface.co/owner/style/resolve/main/style.safetensors''
       = Some HuggingFaceUrl
   \<and> lora_log (snd (load_one sample_env fresh_predictor 0
          ''https://huggingface.co/owner/style/resolve/main/style.safetensors''))
       = [LoadLora ''owner/style'' None (Some ''style.safetensors'')]
   \<and> first_shape ''https://civitai.com/api/download/models/12345?type=Model&format=SafeTensor''
       = Some CivitaiUrl
   \<and> lora_log (snd (load_one sample_env fresh_predictor 0
          ''https://civitai.com/api/download/models/12345?type=Model&format=SafeTensor''))
       = [LoadLora ''/cache/12345?type=Model&format=SafeTensor'' (Some ''a'') None]
   \<and> first_shape ''https://example.com/loras/x.safetensors'' = Some SafetensorsFile
   \<and> lora_log (snd (load_one sample_env fresh_predictor 0
          ''https://example.com/loras/x.safetensors''))
       = [LoadLora ''/cache/x.safetensors'' (Some ''a'') None]"
proof -
  have s0: "first_shape ''./loras/style.tar.gz'' = None"
    by (simp add: shape_eval)
  have s1: "first_shape ''lucataco/flux-emoji'' = Some HubSlug"
    by (simp add: shape_eval)
  have s2: "first_shape ''https://replicate.delivery/yhqm/abc-DEF_1/trained_model.tar''
       = Some ReplicateTar"
    by (simp add: shape_eval)
  have s3: "first_shape ''https://huggingface.co/owner/style/resolve/main/style.safetensors''
       = Some HuggingFaceUrl"
    by (simp add: shape_eval)
  have s4: "first_shape ''https://civitai.com/api/download/models/12345?type=Model&format=SafeTensor''
       = Some CivitaiUrl"
    by (simp add: shape_eval)
  have s5: "first_shape ''https://example.com/loras/x.safetensors'' = Some SafetensorsFile"
    by (simp add: shape_eval)
  have g3: "hf_url_slug ''https://huggingface.co/owner/style/resolve/main/style.safetensors''
       = Some ''owner/style''"
    by (simp add: hf_url_slug_def match_scheme_def slug_char_def)
  have e2: "ensure sample_env (cache fresh_predictor)
       ''https://replicate.delivery/yhqm/abc-DEF_1/trained_model.tar'' False
       = (Inr ''/cache/trained_model.tar'', ())"
    by (simp add: sample_ensure last_segment_def)
  have e4: "ensure sample_env (cache fresh_predictor)
       ''https://civitai.com/api/download/models/12345?type=Model&format=SafeTensor'' True
       = (Inr ''/cache/12345?type=Model&format=SafeTensor'', ())"
    by (simp add: sample_ensure last_segment_def)
  have e5: "ensure sample_env (cache fresh_predictor)
       ''https://example.com/loras/x.safetensors'' True = (Inr ''/cache/x.safetensors'', ())"
    by (simp add: sample_ensure last_segment_def)
  note inst = load_one_first_match [where env = sample_env and st = fresh_predictor
      and count = 0]
  from inst [where hf = "''./loras/style.tar.gz''"] s0
  have r0: "fst (load_one sample_env fresh_predictor 0 ''./loras/style.tar.gz'')
       = Inl (PyException (invalid_lora_msg @ ''./loras/style.tar.gz''))"
    by simp
  from inst [where hf = "''lucataco/flux-emoji''"] s1
  have r1: "lora_log (snd (load_one sample_env fresh_predictor 0 ''lucataco/flux-emoji''))
       = [LoadLora ''lucataco/flux-emoji'' (Some ''a'') None]"
    by (simp add: fresh_predictor_def names_def)
  from inst [where hf = "''https://replicate.delivery/yhqm/abc-DEF_1/trained_model.tar''"
      and dir = "''/cache/trained_model.tar''" and c = "()"] s2 e2
  have r2: "lora_log (snd (load_one sample_env fresh_predictor 0
          ''https://replicate.delivery/yhqm/abc-DEF_1/trained_model.tar''))
       = [LoadLora ''/cache/trained_model.tar/output/flux_train_replicate/lora.safetensors''
            (Some ''a'') None]"
    by (simp add: fresh_predictor_def names_def path_join_def)
  from inst [where hf = "''https://huggingface.co/owner/style/resolve/main/style.safetensors''"
      and slug = "''owner/style''"] s3 g3
  have r3: "lora_log (snd (load_one sample_env fresh_predictor 0
          ''https://huggingface.co/owner/style/resolve/main/style.safetensors''))
       = [LoadLora ''owner/style'' None (Some ''style.safetensors'')]"
    by (simp add: fresh_predictor_def last_segment_def)
  from inst [where hf = "''https://civitai.com/api/download/models/12345?type=Model&format=SafeTensor''"
      and path = "''/cache/12345?type=Model&format=SafeTensor''" and c = "()"] s4 e4
  have r4: "lora_log (snd (load_one sample_env fresh_predictor 0
          ''https://civitai.com/api/download/models/12345?type=Model&format=SafeTensor''))
       = [LoadLora ''/cache/12345?type=Model&format=SafeTensor'' (Some ''a'') None]"
    by (simp add: fresh_predictor_def names_def)
  from inst [where hf = "''https://example.com/loras/x.safetensors''"
      and path = "''/cache/x.safetensors''" and c = "()"] s5 e5
  have r5: "lora_log (snd (load_one sample_env fresh_predictor 0
          ''https://example.com/loras/x.safetensors''))
       = [LoadLora ''/cache/x.safetensors'' (Some ''a'') None]"
    by (simp add: fresh_predictor_def names_def)
  from s0 s1 s2 s3 s4 s5 r0 r1 r2 r3 r4 r5 show ?thesis by blast
qed

section \<open>Adapter names\<close>

text \<open>
  C3. The adapter names come from the pool \<open>a\<close> to \<open>z\<close> in order, and the LoRA loaded
  at position \<open>k\<close> should be registered under letter \<open>k\<close>. The branch for
  \<open>huggingface.co\<close> URLs takes the next letter and counts it, and then calls
  \<open>load_lora_weights\<close> without \<open>adapter_name\<close>: for a single such URL the LoRA is
  registered under no letter, while \<open>set_adapters\<close> is called with the letter \<open>a\<close>.
\<close>

theorem hf_url_adapter_unnamed:
  "load_loras sample_env fresh_predictor
     [''https://huggingface.co/owner/style/resolve/main/style.safetensors''] [0.8]
   = (Inr (),
      fresh_predictor
        \<lparr>last_loaded_loras :=
           Some [''https://huggingface.co/owner/style/resolve/main/style.safetensors''],
         lora_log :=
           [LoadLora ''owner/style'' None (Some ''style.safetensors''),
            SetAdapters [''a''] [0.8]]\<rparr>)"
  by (simp add: load_loras_def load_one_def shape_eval hf_url_slug_def last_segment_def
      register_def names_def fresh_predictor_def)

section \<open>A download that fails\<close>

text \<open>
  The turn of the loop for a \<open>.safetensors\<close> URL whose download raises: the exception
  is swallowed, \<open>count\<close> and the adapters stay as they were, and the loop goes on with
  the next identifier from the same slot.
\<close>

lemma download_failure_skipped:
  assumes "\<not> is_hf_slug u" "\<not> is_replicate_tar u" "\<not> is_hf_url u" "\<not> is_civitai u"
      "ends_with ''.safetensors'' u"
    and "ensure env (cache st) u True = (Inl e, c')"
  shows "load_one env st count u = (Inr count, st\<lparr>cache := c'\<rparr>)"
    and "load_loop env st count (u # rest) = load_loop env (st\<lparr>cache := c'\<rparr>) count rest"
  using assms by (simp_all add: load_one_def)

text \<open>
  C9. After a download that fails and is swallowed, every LoRA that is loaded later
  should sit in the slot that \<open>count\<close> gives it and get the scale of that slot, and
  \<open>predict\<close> should return. For the request \<open>skipped_input\<close> the failure is
  swallowed and \<open>predict\<close> returns, but the LoRA of the \<open>huggingface.co\<close> URL that
  follows is loaded under no letter: its branch takes the letter \<open>a\<close> and counts it
  without passing it to \<open>load_lora_weights\<close>, and \<open>set_adapters\<close> then pairs
  \<open>a\<close>, under which nothing is registered, with the first scale 0.1.
\<close>

theorem skipped_download_then_hf_url:
  "predict sample_env fresh_predictor skipped_input =
   (Inr [''/tmp/out-0.webp''],
    fresh_predictor
      \<lparr>last_loaded_loras :=
         Some [''https://unreachable.example/x.safetensors'',
               ''https://huggingface.co/owner/style/resolve/main/style.safetensors''],
       lora_log := [Unload, LoadLora ''owner/style'' None (Some ''style.safetensors''),
                    SetAdapters [''a''] [0.1]],
       infer_calls := 1,
       saved := [(''/tmp/out-0.webp'', Some 80)]\<rparr>)"
  by (simp add: predict_eval skipped_input_def)

section \<open>The loaded LoRAs as state\<close>

text \<open>
  C2. When \<open>predict\<close> is called with a non-empty \<open>hf_loras\<close> equal to
  \<open>last_loaded_loras\<close>, no call that unloads, loads or activates an adapter is made:
  the log of adapter calls and \<open>last_loaded_loras\<close> are after the call what they were
  before it, whatever \<open>lora_scales\<close> the call supplies, and whether the call returns or
  raises.
\<close>

theorem same_loras_not_reloaded:
  assumes "hf_loras inp = Some loras" "loras \<noteq> []" "last_loaded_loras st = Some loras"
  shows "lora_log (snd (predict env st (inp\<lparr>lora_scales := scales\<rparr>))) = lora_log st
    \<and> last_loaded_loras (snd (predict env st (inp\<lparr>lora_scales := scales\<rparr>))) = Some loras
    \<and> snd (predict_loras env st (hf_loras inp) scales) = st"
proof -
  let ?inp = "inp\<lparr>lora_scales := scales\<rparr>"
  have same: "predict_loras env st (hf_loras ?inp) (lora_scales ?inp) = (Inr (), st)"
    using assms by (simp add: predict_loras_def)
  show ?thesis
  proof (cases "predict_args env ?inp")
    case (Inl e)
    then have "predict env st ?inp = (Inl e, st)" by (rule predict_args_fails)
    with assms same show ?thesis by simp
  next
    case (Inr args)
    from predict_after_loras [OF Inr, of st] same assms show ?thesis by simp
  qed
qed

theorem same_loras_not_reloaded_witness:
  "lora_log (snd (predict sample_env loaded_predictor
       (sample_input\<lparr>hf_loras := Some [''owner/one''], lora_scales := Some [0.3]\<rparr>)))
     = [Unload, LoadLora ''owner/one'' (Some ''a'') None, SetAdapters [''a''] [0.8]]"
proof -
  have "hf_loras (sample_input\<lparr>hf_loras := Some [''owner/one'']\<rparr>) = Some [''owner/one'']"
    "[''owner/one''] \<noteq> []" "last_loaded_loras loaded_predictor = Some [''owner/one'']"
    by (simp_all add: loaded_predictor_def)
  from same_loras_not_reloaded [OF this, of sample_env "Some [0.3]"]
  show ?thesis by (simp add: loaded_predictor_def)
qed

section \<open>The scales of the adapters\<close>

text \<open>
  C4, as the specification states it, promises for every call of \<open>predict\<close> with a new
  non-empty \<open>hf_loras\<close> that each LoRA of the list is applied with its scale. A call
  whose one identifier is not a valid LoRA unloads the adapters and raises: no LoRA is
  applied and \<open>set_adapters\<close> is not called.
\<close>

theorem invalid_lora_nothing_applied:
  "predict sample_env fresh_predictor (sample_input\<lparr>hf_loras := Some [''not a lora'']\<rparr>)
     = (Inl (PyException (invalid_lora_msg @ ''not a lora'')),
        fresh_predictor\<lparr>lora_log := [Unload]\<rparr>)"
  by (simp add: predict_eval)

text \<open>
  C4, amended. For every call of \<open>predict\<close> that reaches the LoRA section with a
  non-empty \<open>hf_loras\<close> that differs from \<open>last_loaded_loras\<close>, and in which the loop
  of \<open>load_loras\<close> loads every identifier of the list (\<open>count\<close> reaches its length):
  the list has at most 26 entries, the adapters are unloaded and one \<open>load_lora_weights\<close>
  call is made for each identifier, and \<open>set_adapters\<close> is then called with the first
  \<open>len(hf_loras)\<close> letters paired with 0.8 for each when \<open>lora_scales\<close> is absent or
  empty, with \<open>lora_scales[0]\<close> for each when there is exactly one scale, and with the
  first \<open>len(hf_loras)\<close> scales when at least as many scales as LoRAs are given.
\<close>

text \<open>
  C4, amended. Take a call of \<open>predict\<close> that reaches the LoRA section with a non-empty
  \<open>hf_loras\<close> that differs from \<open>last_loaded_loras\<close>, in which the loop of
  \<open>load_loras\<close> loads every identifier of the list (\<open>count\<close> reaches its length) and
  no identifier is dispatched to the branch for \<open>huggingface.co\<close> URLs, whose call does
  not name the adapter. Then the list has at most 26 entries; after the unload the log
  holds one \<open>load_lora_weights\<close> call for each identifier, the call at position \<open>k\<close>
  made by the turn of the loop for identifier \<open>k\<close> and registering it under letter
  \<open>k\<close>; and \<open>set_adapters\<close> is then called with these letters paired, position
  by position, with 0.8 for each when \<open>lora_scales\<close> is absent or empty, with
  \<open>lora_scales[0]\<close> for each when there is exactly one scale, and with the first
  \<open>len(hf_loras)\<close> scales when at least as many scales as LoRAs are given.
\<close>

theorem predict_lora_scales:
  assumes args: "predict_args env inp = Inr args"
    and request: "hf_loras inp = Some loras" "loras \<noteq> []" "Some loras \<noteq> last_loaded_loras st"
    and named: "\<forall>hf \<in> set loras. first_shape hf \<noteq> Some HuggingFaceUrl"
    and loaded: "load_loop env (st\<lparr>lora_log := lora_log st @ [Unload]\<rparr>) 0 loras
        = (Inr (length loras), st')"
  shows "length loras \<le> 26
    \<and> (\<exists>loads. lora_log st' = lora_log st @ Unload # loads \<and> length loads = length loras
          \<and> (\<forall>k < length loras. \<exists>s s' src wn.
                load_loop env (st\<lparr>lora_log := lora_log st @ [Unload]\<rparr>) 0 (take k loras)
                  = (Inr k, s)
                \<and> load_one env s k (loras ! k) = (Inr (Suc k), s')
                \<and> lora_log s' = lora_log s @ [loads ! k]
                \<and> loads ! k = LoadLora src (Some (names ! k)) wn
                \<and> take (length loras) names ! k = names ! k))
    \<and> (lora_scales inp = None \<or> lora_scales inp = Some [] \<longrightarrow>
         lora_log (snd (predict env st inp))
           = lora_log st' @ [SetAdapters (take (length loras) names)
                               (replicate (length loras) 0.8)])
    \<and> (lora_scales inp = Some [w] \<longrightarrow>
         lora_log (snd (predict env st inp))
           = lora_log st' @ [SetAdapters (take (length loras) names)
                               (replicate (length loras) w)])
    \<and> (lora_scales inp = Some ws \<and> 2 \<le> length ws \<and> length loras \<le> length ws \<longrightarrow>
         lora_log (snd (predict env st inp))
           = lora_log st' @ [SetAdapters (take (length loras) names)
                               (take (length loras) ws)])"
proof -
  let ?n = "length loras"
  let ?st1 = "st\<lparr>lora_log := lora_log st @ [Unload]\<rparr>"
  note loop = load_loop_Inr [OF loaded]
  from loop have bound: "?n \<le> 26" by (simp add: length_names)
  from loop obtain loads where loads: "lora_log st' = lora_log ?st1 @ loads" "length loads = ?n"
    by auto
  have turn: "\<exists>s s' src wn.
        load_loop env ?st1 0 (take k loras) = (Inr k, s)
        \<and> load_one env s k (loras ! k) = (Inr (Suc k), s')
        \<and> lora_log s' = lora_log s @ [loads ! k]
        \<and> loads ! k = LoadLora src (Some (names ! k)) wn
        \<and> take ?n names ! k = names ! k" if k: "k < ?n" for k
  proof -
    from loaded have whole: "load_loop env ?st1 0 loras = (Inr (0 + ?n), st')" by simp
    from load_loop_turns [OF whole k] obtain s s' src an wn where
      pre: "load_loop env ?st1 0 (take k loras) = (Inr k, s)"
      and one: "load_one env s k (loras ! k) = (Inr (Suc k), s')"
      and op: "lora_log s' = lora_log s @ [LoadLora src an wn]"
      and at: "lora_log st' ! (length (lora_log ?st1) + k) = LoadLora src an wn"
      by auto
    from k named have "first_shape (loras ! k) \<noteq> Some HuggingFaceUrl" by simp
    from load_one_named [OF one this] op have an: "an = Some (names ! k)" by auto
    from at loads k have entry: "loads ! k = LoadLora src an wn"
      by (simp add: nth_append)
    from pre one op entry an k show ?thesis by auto
  qed
  from loads turn have log: "\<exists>loads. lora_log st' = lora_log st @ Unload # loads
      \<and> length loads = ?n
      \<and> (\<forall>k < ?n. \<exists>s s' src wn.
            load_loop env ?st1 0 (take k loras) = (Inr k, s)
            \<and> load_one env s k (loras ! k) = (Inr (Suc k), s')
            \<and> lora_log s' = lora_log s @ [loads ! k]
            \<and> loads ! k = LoadLora src (Some (names ! k)) wn
            \<and> take ?n names ! k = names ! k)"
    by auto
  have after: "lora_log (snd (predict env st inp))
      = lora_log (snd (predict_loras env st (hf_loras inp) (lora_scales inp)))"
    using predict_after_loras [OF args] by simp
  have run: "lora_log (snd (load_loras env ?st1 loras sc))
      = lora_log st' @ [SetAdapters (take ?n names) (take ?n sc)]" for sc
    using loaded by (simp add: load_loras_def)
  have absent: "lora_log (snd (predict env st inp))
           = lora_log st' @ [SetAdapters (take ?n names) (replicate ?n 0.8)]"
    if "lora_scales inp = None \<or> lora_scales inp = Some []"
    using that request run [of "replicate ?n 0.8"] after
    by (auto simp: predict_loras_def)
  have one: "lora_log (snd (predict env st inp))
           = lora_log st' @ [SetAdapters (take ?n names) (replicate ?n w)]"
    if "lora_scales inp = Some [w]"
    using that request run [of "replicate ?n w"] after
    by (auto simp: predict_loras_def)
  have each: "lora_log (snd (predict env st inp))
           = lora_log st' @ [SetAdapters (take ?n names) (take ?n ws)]"
    if "lora_scales inp = Some ws \<and> 2 \<le> length ws \<and> ?n \<le> length ws"
  proof -
    from that have "ws \<noteq> []" "length ws \<noteq> 1" by auto
    with that request run [of ws] after show ?thesis
      by (auto simp: predict_loras_def)
  qed
  from bound log absent one each show ?thesis by blast
qed

theorem predict_lora_scales_witness:
  "lora_log (snd (predict sample_env fresh_predictor
       (sample_input\<lparr>hf_loras := Some [''owner/one'', ''owner/two'']\<rparr>)))
     = [Unload, LoadLora ''owner/one'' (Some ''a'') None, LoadLora ''owner/two'' (Some ''b'') None,
        SetAdapters [''a'', ''b''] [0.8, 0.8]]
   \<and> lora_log (snd (predict sample_env fresh_predictor
       (sample_input\<lparr>hf_loras := Some [''owner/one'', ''owner/two''],
                     lora_scales := Some [0.3]\<rparr>)))
     = [Unload, LoadLora ''owner/one'' (Some ''a'') None, LoadLora ''owner/two'' (Some ''b'') None,
        SetAdapters [''a'', ''b''] [0.3, 0.3]]
   \<and> lora_log (snd (predict sample_env fresh_predictor
       (sample_input\<lparr>hf_loras := Some [''owner/one'', ''owner/two''],
                     lora_scales := Some [0.1, 0.5, 0.9]\<rparr>)))
     = [Unload, LoadLora ''owner/one'' (Some ''a'') None, LoadLora ''owner/two'' (Some ''b'') None,
        SetAdapters [''a'', ''b''] [0.1, 0.5]]"
proof -
  let ?loras = "[''owner/one'', ''owner/two'']"
  let ?inp = "sample_input\<lparr>hf_loras := Some ?loras\<rparr>"
  let ?st' = "fresh_predictor\<lparr>lora_log := [Unload, LoadLora ''owner/one'' (Some ''a'') None,
      LoadLora ''owner/two'' (Some ''b'') None]\<rparr>"
  let ?args = "\<lparr>use_img2img = False, arg_prompt = [''a pony''], arg_guidance_scale = 3.5,
      arg_seed = 7, arg_num_inference_steps = 28, arg_width = 1024, arg_height = 1024,
      arg_image = None, arg_strength = None, arg_joint_attention_scale = Some 1.0\<rparr> :: unit pipe_args"
  have args: "predict_args sample_env (?inp\<lparr>lora_scales := sc\<rparr>) = Inr ?args" for sc
    by (simp add: predict_eval)
  have request: "hf_loras (?inp\<lparr>lora_scales := sc\<rparr>) = Some ?loras" "?loras \<noteq> []"
    "Some ?loras \<noteq> last_loaded_loras fresh_predictor" for sc
    by (simp_all add: fresh_predictor_def)
  have loaded: "load_loop sample_env
      (fresh_predictor\<lparr>lora_log := lora_log fresh_predictor @ [Unload]\<rparr>) 0 ?loras
        = (Inr (length ?loras), ?st')"
    by (simp add: load_one_def shape_eval register_def names_def fresh_predictor_def)
  have named: "\<forall>hf \<in> set ?loras. first_shape hf \<noteq> Some HuggingFaceUrl"
    by (simp add: shape_eval)
  note fact = predict_lora_scales [OF args request named loaded]
  have take2: "take 2 names = [''a'', ''b'']"
    by (simp add: names_def)
  have absent: "lora_scales (?inp\<lparr>lora_scales := None\<rparr>) = None
      \<or> lora_scales (?inp\<lparr>lora_scales := None\<rparr>) = Some []" by simp
  have one: "lora_scales (?inp\<lparr>lora_scales := Some [0.3]\<rparr>) = Some [0.3]" by simp
  have each: "lora_scales (?inp\<lparr>lora_scales := Some [0.1, 0.5, 0.9]\<rparr>) = Some [0.1, 0.5, 0.9]
      \<and> 2 \<le> length [0.1, 0.5, 0.9 :: real] \<and> length ?loras \<le> length [0.1, 0.5, 0.9 :: real]"
    by simp
  have none: "?inp\<lparr>lora_scales := None\<rparr> = ?inp"
    by (simp add: sample_input_def)
  from fact [of None] absent none
  have r1: "lora_log (snd (predict sample_env fresh_predictor ?inp))
      = lora_log ?st' @ [SetAdapters (take (length ?loras) names) (replicate (length ?loras) 0.8)]"
    by (simp add: sample_input_def)
  from fact [of "Some [0.3]" "0.3"] one
  have r2: "lora_log (snd (predict sample_env fresh_predictor (?inp\<lparr>lora_scales := Some [0.3]\<rparr>)))
      = lora_log ?st' @ [SetAdapters (take (length ?loras) names) (replicate (length ?loras) 0.3)]"
    by blast
  from fact [of "Some [0.1, 0.5, 0.9]" _ "[0.1, 0.5, 0.9]"] each
  have r3: "lora_log (snd (predict sample_env fresh_predictor
        (?inp\<lparr>lora_scales := Some [0.1, 0.5, 0.9]\<rparr>)))
      = lora_log ?st' @ [SetAdapters (take (length ?loras) names)
          (take (length ?loras) [0.1, 0.5, 0.9])]"
    by blast
  from r1 r2 r3 take2 show ?thesis
    by (simp add: eval_nat_numeral)
qed

section \<open>The retry of the inference call\<close>

text \<open>The three outcomes of the inference step of lines 438 to 460.\<close>

lemma predict_inference_cases:
  "(pipe_call env st args = Inl (RuntimeError msg) \<and> contains_str shape_error_text msg \<longrightarrow>
      predict_inference env st args
        = (pipe_call env (st\<lparr>infer_calls := Suc (infer_calls st), attn_patched := True\<rparr>) args,
           st\<lparr>infer_calls := Suc (Suc (infer_calls st)), attn_patched := True\<rparr>))
   \<and> (pipe_call env st args = Inl e
        \<and> (\<forall>m. e = RuntimeError m \<longrightarrow> \<not> contains_str shape_error_text m) \<longrightarrow>
      predict_inference env st args = (Inl e, st\<lparr>infer_calls := Suc (infer_calls st)\<rparr>))
   \<and> (pipe_call env st args = Inr output \<longrightarrow>
      predict_inference env st args = (Inr output, st\<lparr>infer_calls := Suc (infer_calls st)\<rparr>))"
proof -
  have retry: "predict_inference env st args
        = (pipe_call env (st\<lparr>infer_calls := Suc (infer_calls st), attn_patched := True\<rparr>) args,
           st\<lparr>infer_calls := Suc (Suc (infer_calls st)), attn_patched := True\<rparr>)"
    if "pipe_call env st args = Inl (RuntimeError msg) \<and> contains_str shape_error_text msg"
    using that by (simp add: predict_inference_def Let_def)
  have other: "predict_inference env st args = (Inl e, st\<lparr>infer_calls := Suc (infer_calls st)\<rparr>)"
    if "pipe_call env st args = Inl e
        \<and> (\<forall>m. e = RuntimeError m \<longrightarrow> \<not> contains_str shape_error_text m)"
    using that by (cases e) (simp_all add: predict_inference_def Let_def)
  have good: "predict_inference env st args = (Inr output, st\<lparr>infer_calls := Suc (infer_calls st)\<rparr>)"
    if "pipe_call env st args = Inr output"
    using that by (simp add: predict_inference_def Let_def)
  from retry other good show ?thesis by blast
qed

text \<open>
  C6. Let \<open>predict\<close> reach its inference call. When the call raises a
  \<open>RuntimeError\<close> whose message contains
  \<open>mat1 and mat2 shapes cannot be multiplied\<close>, \<open>predict\<close> switches the UNet to
  \<open>AttnProcessor2_0\<close> and calls the pipeline once more: when that second call raises,
  \<open>predict\<close> raises the same exception, after two calls and with no third one; when it
  returns, \<open>predict\<close> goes on to the outputs with its images. When the first call raises
  anything else, \<open>predict\<close> raises that exception after the one call. When the first
  call returns, it is the only call. In no case does \<open>predict\<close> call the pipeline more
  than twice.
\<close>

theorem one_retry_only:
  assumes args: "predict_args env inp = Inr args"
    and loras: "predict_loras env st (hf_loras inp) (lora_scales inp) = (Inr (), st1)"
  shows "(pipe_call env st1 args = Inl (RuntimeError msg) \<and> contains_str shape_error_text msg \<longrightarrow>
        (pipe_call env (st1\<lparr>infer_calls := Suc (infer_calls st), attn_patched := True\<rparr>) args
            = Inl retry_error \<longrightarrow>
           predict env st inp
             = (Inl retry_error, st1\<lparr>infer_calls := infer_calls st + 2, attn_patched := True\<rparr>))
        \<and> (pipe_call env (st1\<lparr>infer_calls := Suc (infer_calls st), attn_patched := True\<rparr>) args
            = Inr retry_images \<longrightarrow>
           predict env st inp
             = predict_outputs env
                 (st1\<lparr>infer_calls := infer_calls st + 2, attn_patched := True\<rparr>) inp retry_images)
        \<and> infer_calls (snd (predict env st inp)) = infer_calls st + 2
        \<and> attn_patched (snd (predict env st inp)))
    \<and> (pipe_call env st1 args = Inl e
         \<and> (\<forall>m. e = RuntimeError m \<longrightarrow> \<not> contains_str shape_error_text m) \<longrightarrow>
        predict env st inp = (Inl e, st1\<lparr>infer_calls := infer_calls st + 1\<rparr>))
    \<and> (pipe_call env st1 args = Inr images \<longrightarrow>
        predict env st inp
          = predict_outputs env (st1\<lparr>infer_calls := infer_calls st + 1\<rparr>) inp images
        \<and> infer_calls (snd (predict env st inp)) = infer_calls st + 1
        \<and> attn_patched (snd (predict env st inp)) = attn_patched st)
    \<and> infer_calls (snd (predict env st inp)) \<le> infer_calls st + 2"
proof -
  from predict_loras_calls [of env st "hf_loras inp" "lora_scales inp"] loras
  have same: "infer_calls st1 = infer_calls st" "attn_patched st1 = attn_patched st"
    by simp_all
  let ?st2 = "st1\<lparr>infer_calls := Suc (infer_calls st), attn_patched := True\<rparr>"
  let ?st3 = "st1\<lparr>infer_calls := infer_calls st + 2, attn_patched := True\<rparr>"
  let ?once = "st1\<lparr>infer_calls := infer_calls st + 1\<rparr>"
  have step: "predict env st inp =
      (case predict_inference env st1 args of
         (Inl x, s) \<Rightarrow> (Inl x, s)
       | (Inr output, s) \<Rightarrow> predict_outputs env s inp output)"
    using args loras by (simp add: predict_def)
  note cases = predict_inference_cases [of env st1 args]
  have retried: "predict_inference env st1 args = (pipe_call env ?st2 args, ?st3)"
    if "pipe_call env st1 args = Inl (RuntimeError msg) \<and> contains_str shape_error_text msg"
    using cases [of msg] that same by simp
  have failed: "predict env st inp = (Inl retry_error, ?st3)"
    if "pipe_call env st1 args = Inl (RuntimeError msg) \<and> contains_str shape_error_text msg"
      "pipe_call env ?st2 args = Inl retry_error"
    using retried [OF that(1)] that(2) by (simp add: step)
  have passed: "predict env st inp = predict_outputs env ?st3 inp retry_images"
    if "pipe_call env st1 args = Inl (RuntimeError msg) \<and> contains_str shape_error_text msg"
      "pipe_call env ?st2 args = Inr retry_images"
    using retried [OF that(1)] that(2) by (simp add: step)
  have twice: "infer_calls (snd (predict env st inp)) = infer_calls st + 2
      \<and> attn_patched (snd (predict env st inp))"
    if shape: "pipe_call env st1 args = Inl (RuntimeError msg) \<and> contains_str shape_error_text msg"
  proof (cases "pipe_call env ?st2 args")
    case (Inl x)
    with retried [OF shape] show ?thesis by (simp add: step)
  next
    case (Inr out)
    with retried [OF shape] predict_outputs_frame [of env ?st3 inp out]
    show ?thesis by (simp add: step)
  qed
  have other: "predict env st inp = (Inl e, ?once)"
    if "pipe_call env st1 args = Inl e
         \<and> (\<forall>m. e = RuntimeError m \<longrightarrow> \<not> contains_str shape_error_text m)"
    using cases [of _ e] that same by (simp add: step)
  have good: "predict env st inp = predict_outputs env ?once inp images
        \<and> infer_calls (snd (predict env st inp)) = infer_calls st + 1
        \<and> attn_patched (snd (predict env st inp)) = attn_patched st"
    if "pipe_call env st1 args = Inr images"
    using cases [of _ _ images] that same predict_outputs_frame [of env ?once inp images]
    by (simp add: step)
  from failed passed twice other good predict_calls [of env st inp] show ?thesis
    by blast
qed


theorem one_retry_only_witness:
  "predict retry_env fresh_predictor sample_input
     = (Inr [''/tmp/out-0.webp''],
        fresh_predictor\<lparr>lora_log := [Unload], infer_calls := 2, attn_patched := True,
                        saved := [(''/tmp/out-0.webp'', Some 80)]\<rparr>)
   \<and> predict broken_env fresh_predictor sample_input
     = (Inl shape_error,
        fresh_predictor\<lparr>lora_log := [Unload], infer_calls := 2, attn_patched := True\<rparr>)
   \<and> predict oom_env fresh_predictor sample_input
     = (Inl (RuntimeError ''CUDA out of memory''),
        fresh_predictor\<lparr>lora_log := [Unload], infer_calls := 1\<rparr>)
   \<and> predict sample_env fresh_predictor sample_input
     = (Inr [''/tmp/out-0.webp''],
        fresh_predictor\<lparr>lora_log := [Unload], infer_calls := 1,
                        saved := [(''/tmp/out-0.webp'', Some 80)]\<rparr>)"
proof -
  let ?msg = "''mat1 and mat2 shapes cannot be multiplied (77x2048 and 768x320)''"
  let ?st1 = "fresh_predictor\<lparr>lora_log := [Unload]\<rparr>"
  let ?st2 = "?st1\<lparr>infer_calls := Suc (infer_calls fresh_predictor), attn_patched := True\<rparr>"
  have args: "predict_args retry_env sample_input = Inr sample_args"
    "predict_args broken_env sample_input = Inr sample_args"
    "predict_args oom_env sample_input = Inr sample_args"
    "predict_args sample_env sample_input = Inr sample_args"
    by (simp_all add: predict_eval retry_env_def broken_env_def oom_env_def sample_args_def)
  have loras: "predict_loras env fresh_predictor (hf_loras sample_input) (lora_scales sample_input)
      = (Inr (), ?st1)" for env :: "(unit, nat, unit) env"
    by (simp add: predict_loras_def sample_input_def fresh_predictor_def)
  have shape: "contains_str shape_error_text ?msg"
    by (simp add: shape_error_text_def)
  have oom: "\<forall>m. RuntimeError ''CUDA out of memory'' = RuntimeError m
      \<longrightarrow> \<not> contains_str shape_error_text m"
    by (simp add: shape_error_text_def)
  have first: "pipe_call retry_env ?st1 sample_args = Inl (RuntimeError ?msg)"
    "pipe_call broken_env ?st1 sample_args = Inl (RuntimeError ?msg)"
    "pipe_call oom_env ?st1 sample_args = Inl (RuntimeError ''CUDA out of memory'')"
    "pipe_call sample_env ?st1 sample_args = Inr [0]"
    by (simp_all add: retry_env_def broken_env_def oom_env_def sample_env_def shape_error_def
        fresh_predictor_def sample_args_def)
  have second: "pipe_call retry_env ?st2 sample_args = Inr [0]"
    "pipe_call broken_env ?st2 sample_args = Inl shape_error"
    by (simp_all add: retry_env_def broken_env_def)
  have outputs: "predict_outputs env s sample_input [0]
      = (Inr [''/tmp/out-0.webp''], s\<lparr>saved := saved s @ [(''/tmp/out-0.webp'', Some 80)]\<rparr>)"
    for env :: "(unit, nat, unit) env" and s :: "unit predictor"
    by (simp add: predict_outputs_def sample_input_def output_path_def)
  from one_retry_only [OF args(1) loras, where msg = ?msg and retry_images = "[0]"]
    first(1) shape second(1)
  have r1: "predict retry_env fresh_predictor sample_input
     = predict_outputs retry_env
         (?st1\<lparr>infer_calls := infer_calls fresh_predictor + 2, attn_patched := True\<rparr>)
         sample_input [0]"
    by blast
  from one_retry_only [OF args(2) loras, where msg = ?msg and retry_error = shape_error]
    first(2) shape second(2)
  have r2: "predict broken_env fresh_predictor sample_input
     = (Inl shape_error,
        ?st1\<lparr>infer_calls := infer_calls fresh_predictor + 2, attn_patched := True\<rparr>)"
    by blast
  from one_retry_only [OF args(3) loras, where e = "RuntimeError ''CUDA out of memory''"]
    first(3) oom
  have r3: "predict oom_env fresh_predictor sample_input
     = (Inl (RuntimeError ''CUDA out of memory''),
        ?st1\<lparr>infer_calls := infer_calls fresh_predictor + 1\<rparr>)"
    by blast
  from one_retry_only [OF args(4) loras, where images = "[0]"] first(4)
  have r4: "predict sample_env fresh_predictor sample_input
     = predict_outputs sample_env (?st1\<lparr>infer_calls := infer_calls fresh_predictor + 1\<rparr>)
         sample_input [0]"
    by blast
  from r1 r2 r3 r4 show ?thesis
    by (simp add: outputs fresh_predictor_def)
qed

section \<open>The safety filter\<close>

text \<open>
  C7. Let \<open>predict\<close> reach the end of inference with its \<open>num_outputs\<close> images
  (at least one), and let the safety checker, when it is enabled, return one flag for each
  image. With the checker enabled and every image flagged, \<open>predict\<close> raises the plain
  \<open>Exception\<close> of line 478 and returns nothing. With the checker enabled and some image
  not flagged, it returns the paths \<open>/tmp/out-i.format\<close> of exactly the images \<open>i\<close>
  that are not flagged, in order. With the checker disabled it returns one path for every
  image.
\<close>

theorem safe_outputs_returned:
  assumes args: "predict_args env inp = Inr args"
    and loras: "predict_loras env st (hf_loras inp) (lora_scales inp) = (Inr (), st1)"
    and images: "predict_inference env st1 args = (Inr images, st2)"
    and count: "length images = num_outputs inp" "1 \<le> num_outputs inp"
    and checker: "disable_safety_checker inp
        \<or> safety_checker env images = Inr flags \<and> length flags = length images"
  shows "(\<not> disable_safety_checker inp \<and> (\<forall>j < length images. flags ! j) \<longrightarrow>
            fst (predict env st inp) = Inl (PyException nsfw_msg))
    \<and> (\<not> disable_safety_checker inp \<and> \<not> (\<forall>j < length images. flags ! j) \<longrightarrow>
            fst (predict env st inp)
              = Inr (map (\<lambda>j. output_path j (output_format inp))
                       (filter (\<lambda>j. \<not> flags ! j) [0 ..< length images])))
    \<and> (disable_safety_checker inp \<longrightarrow>
            fst (predict env st inp)
              = Inr (map (\<lambda>j. output_path j (output_format inp)) [0 ..< length images]))"
proof -
  have step: "predict env st inp = predict_outputs env st2 inp images"
    using args loras images by (simp add: predict_def)
  from count have nonempty: "images \<noteq> []" by auto
  show ?thesis
  proof (cases "disable_safety_checker inp")
    case True
    let ?run = "save_outputs True [] (output_format inp) (output_quality inp) 0 images [] st2"
    obtain r s where run: "?run = (r, s)" by (cases ?run)
    with save_outputs_disabled [of "[]" "output_format inp" "output_quality inp" 0 images "[]" st2]
    have "r = Inr (map (\<lambda>j. output_path j (output_format inp)) [0 ..< length images])"
      by simp
    with True run nonempty show ?thesis
      by (simp add: step predict_outputs_def)
  next
    case False
    with checker have flags: "safety_checker env images = Inr flags"
      "length flags = length images" by simp_all
    let ?kept = "filter (\<lambda>j. \<not> flags ! j) [0 ..< length images]"
    let ?run = "save_outputs False flags (output_format inp) (output_quality inp) 0 images [] st2"
    obtain r s where run: "?run = (r, s)" by (cases ?run)
    with flags(2)
      save_outputs_enabled [of 0 images flags "output_format inp" "output_quality inp" "[]" st2]
    have r: "r = Inr (map (\<lambda>j. output_path j (output_format inp)) ?kept)"
      by simp
    have none: "?kept = [] \<longleftrightarrow> (\<forall>j < length images. flags ! j)"
      by (auto simp: filter_empty_conv)
    from False flags run r none show ?thesis
      by (simp add: step predict_outputs_def)
  qed
qed

theorem safe_outputs_returned_witness:
  "fst (predict sample_env fresh_predictor
          (sample_input\<lparr>num_outputs := 2, disable_safety_checker := False\<rparr>))
     = Inr [''/tmp/out-0.webp'']
   \<and> fst (predict strict_env fresh_predictor
          (sample_input\<lparr>num_outputs := 2, disable_safety_checker := False\<rparr>))
     = Inl (PyException nsfw_msg)
   \<and> fst (predict sample_env fresh_predictor (sample_input\<lparr>num_outputs := 2\<rparr>))
     = Inr [''/tmp/out-0.webp'', ''/tmp/out-1.webp'']"
proof -
  let ?on = "sample_input\<lparr>num_outputs := 2, disable_safety_checker := False\<rparr>"
  let ?off = "sample_input\<lparr>num_outputs := 2\<rparr>"
  let ?args = "sample_args\<lparr>arg_prompt := [''a pony'', ''a pony'']\<rparr>"
  let ?st1 = "fresh_predictor\<lparr>lora_log := [Unload]\<rparr>"
  let ?st2 = "?st1\<lparr>infer_calls := 1\<rparr>"
  have args: "predict_args sample_env ?on = Inr ?args" "predict_args strict_env ?on = Inr ?args"
    "predict_args sample_env ?off = Inr ?args"
    by (simp_all add: predict_eval strict_env_def sample_args_def eval_nat_numeral)
  have loras: "predict_loras env fresh_predictor (hf_loras ?on) (lora_scales ?on) = (Inr (), ?st1)"
    "predict_loras env fresh_predictor (hf_loras ?off) (lora_scales ?off) = (Inr (), ?st1)"
    for env :: "(unit, nat, unit) env"
    by (simp_all add: predict_loras_def sample_input_def fresh_predictor_def)
  have images: "predict_inference sample_env ?st1 ?args = (Inr [0, 1], ?st2)"
    "predict_inference strict_env ?st1 ?args = (Inr [0, 1], ?st2)"
    by (simp_all add: predict_inference_def sample_env_def strict_env_def sample_args_def
        fresh_predictor_def)
  have count: "length [0, 1 :: nat] = num_outputs ?on" "1 \<le> num_outputs ?on"
    "length [0, 1 :: nat] = num_outputs ?off" "1 \<le> num_outputs ?off"
    by simp_all
  have mixed: "disable_safety_checker ?on
      \<or> safety_checker sample_env [0, 1] = Inr [False, True]
        \<and> length [False, True] = length [0, 1 :: nat]"
    by (simp add: sample_env_def)
  have strict: "disable_safety_checker ?on
      \<or> safety_checker strict_env [0, 1] = Inr [True, True]
        \<and> length [True, True] = length [0, 1 :: nat]"
    by (simp add: strict_env_def)
  have off: "disable_safety_checker ?off
      \<or> safety_checker sample_env [0, 1] = Inr [] \<and> length ([] :: bool list) = length [0, 1 :: nat]"
    by (simp add: sample_input_def)
  have range: "[0 ..< length [0, 1 :: nat]] = [0, 1]"
    by (simp add: upt_rec)
  have paths: "output_path 0 ''webp'' = ''/tmp/out-0.webp''"
    "output_path (Suc 0) ''webp'' = ''/tmp/out-1.webp''"
    by (simp_all add: output_path_def)
  from safe_outputs_returned [OF args(1) loras(1) images(1) count(1,2) mixed]
  have r1: "fst (predict sample_env fresh_predictor ?on) = Inr [''/tmp/out-0.webp'']"
    unfolding range by (simp add: sample_input_def paths less_Suc_eq)
  from safe_outputs_returned [OF args(2) loras(1) images(2) count(1,2) strict]
  have r2: "fst (predict strict_env fresh_predictor ?on) = Inl (PyException nsfw_msg)"
    unfolding range by (simp add: sample_input_def less_Suc_eq)
  from safe_outputs_returned [OF args(3) loras(2) images(1) count(3,4) off]
  have r3: "fst (predict sample_env fresh_predictor ?off)
      = Inr [''/tmp/out-0.webp'', ''/tmp/out-1.webp'']"
    unfolding range by (simp add: sample_input_def paths)
  from r1 r2 r3 show ?thesis by blast
qed

section \<open>Downloads\<close>

lemma perform_Inr: "perform io op calls = (Inr u, calls') \<Longrightarrow> calls' = calls @ [op]"
  by (simp add: perform_def split: option.splits)

lemma perform_quiet: "os_raises io calls op = None \<Longrightarrow> perform io op calls = (Inr (), calls @ [op])"
  by (simp add: perform_def)

lemma write_chunks_Inr:
  "write_chunks io f chunks calls = (Inr u, calls') \<Longrightarrow> calls' = calls @ map (Write f) chunks"
proof (induction chunks arbitrary: calls)
  case Nil
  then show ?case by simp
next
  case (Cons chunk rest)
  from Cons.prems obtain calls1 where one: "perform io (Write f chunk) calls = (Inr (), calls1)"
    and more: "write_chunks io f rest calls1 = (Inr u, calls')"
    by (auto split: prod.splits sum.splits)
  from perform_Inr [OF one] Cons.IH [OF more] show ?case by simp
qed

lemma write_chunks_quiet:
  "\<forall>l op. os_raises io l op = None \<Longrightarrow>
     write_chunks io f chunks calls = (Inr (), calls @ map (Write f) chunks)"
  by (induction chunks arbitrary: calls) (simp_all add: perform_def)

lemma bytes_written_append:
  "bytes_written f (xs @ ys) = bytes_written f xs @ bytes_written f ys"
  by (induction f xs rule: bytes_written.induct) simp_all

lemma bytes_written_writes: "bytes_written f (map (Write f) chunks) = concat chunks"
  by (induction chunks) simp_all


lemma perform_sub: "perform io op calls = (r, calls') \<Longrightarrow> set calls' \<subseteq> insert op (set calls)"
  by (auto simp: perform_def split: option.splits)

lemma write_chunks_sub:
  "write_chunks io f chunks calls = (r, calls') \<Longrightarrow> set calls' \<subseteq> set calls \<union> Write f ` set chunks"
proof (induction chunks arbitrary: calls)
  case Nil
  then show ?case by simp
next
  case (Cons chunk rest)
  obtain r1 calls1 where one: "perform io (Write f chunk) calls = (r1, calls1)"
    by (cases "perform io (Write f chunk) calls")
  note sub1 = perform_sub [OF one]
  show ?case
  proof (cases r1)
    case (Inl e)
    with one Cons.prems sub1 show ?thesis by auto
  next
    case (Inr u)
    with one Cons.prems have "write_chunks io f rest calls1 = (r, calls')" by simp
    from Cons.IH [OF this] sub1 show ?thesis by auto
  qed
qed

lemma file_mode_no_tar:
  assumes "op \<in> set (snd (download_weights io calls url dest True))" "is_tar_op op"
  shows "op \<in> set calls"
proof -
  let ?dir = "os_dirname dest"
  obtain r1 calls1 where s1:
    "(if ?dir \<noteq> [] then perform io (MakeDirs ?dir) calls else (Inr (), calls)) = (r1, calls1)"
    by (cases "if ?dir \<noteq> [] then perform io (MakeDirs ?dir) calls else (Inr (), calls)")
  obtain r2 calls2 where s2: "perform io (HttpGet url) calls1 = (r2, calls2)"
    by (cases "perform io (HttpGet url) calls1")
  obtain r3 calls3 where s3: "perform io (OpenWrite dest) calls2 = (r3, calls3)"
    by (cases "perform io (OpenWrite dest) calls2")
  obtain r4 calls4 where s4: "write_chunks io dest (http_chunks io url) calls3 = (r4, calls4)"
    by (cases "write_chunks io dest (http_chunks io url) calls3")
  have sub1: "set calls1 \<subseteq> insert (MakeDirs ?dir) (set calls)"
    using s1 perform_sub [of io "MakeDirs ?dir" calls r1 calls1] by (auto split: if_splits)
  note sub2 = perform_sub [OF s2]
  note sub3 = perform_sub [OF s3]
  note sub4 = write_chunks_sub [OF s4]
  have "snd (download_weights io calls url dest True) \<in> {calls1, calls2, calls3, calls4}"
    using s1 s2 s3 s4
    by (cases r1; cases r2; cases r3) (simp_all add: download_weights_def Let_def)
  with assms(1) have "op \<in> set calls1 \<union> set calls2 \<union> set calls3 \<union> set calls4" by auto
  moreover have m1: "op \<in> set calls" if "op \<in> set calls1"
    using that sub1 assms(2) by auto
  moreover have m2: "op \<in> set calls" if "op \<in> set calls2"
    using that sub2 assms(2) m1 by auto
  moreover have m3: "op \<in> set calls" if "op \<in> set calls3"
    using that sub3 assms(2) m2 by auto
  moreover have "op \<in> set calls" if "op \<in> set calls4"
    using that sub4 assms(2) m3 by auto
  ultimately show ?thesis by blast
qed

lemma archive_mode_Inr:
  assumes "download_weights io calls url dest False = (Inr (), calls')"
  shows "calls' = calls @ [MakeDirs dest, CreateTemp (temp_name io), HttpGet url]
           @ map (Write (temp_name io)) (http_chunks io url)
           @ [Flush (temp_name io), TarOpen (temp_name io), ExtractAll (temp_name io) dest]"
  using assms
  by (auto simp: download_weights_def split: prod.splits sum.splits
      dest!: perform_Inr write_chunks_Inr)

lemma file_mode_Inr:
  assumes "download_weights io calls url dest True = (Inr (), calls')"
  shows "calls' = calls @ (if os_dirname dest = [] then [] else [MakeDirs (os_dirname dest)])
           @ [HttpGet url, OpenWrite dest] @ map (Write dest) (http_chunks io url)"
  using assms
  by (auto simp: download_weights_def Let_def split: prod.splits sum.splits if_splits
      dest!: perform_Inr write_chunks_Inr)

lemma download_weights_quiet:
  assumes "\<forall>l op. os_raises io l op = None"
  shows "fst (download_weights io calls url dest file) = Inr ()"
  using assms
  by (simp add: download_weights_def Let_def perform_def write_chunks_quiet)

text \<open>
  C8. Whenever \<open>download_weights\<close> returns with \<open>file=False\<close>, it has created the
  destination directory if needed, created a temporary file, requested the URL, written
  the chunks of the response to the temporary file in order, so that the bytes written
  are the downloaded bytes, and opened that file as a tar archive and extracted it into
  the destination, and it has made no other call. Whenever it returns with
  \<open>file=True\<close>, it has created the parent directory of the destination when the path
  names one, requested the URL, opened the destination for writing and written the chunks
  to it, so that the bytes written to the destination are the downloaded bytes, and it
  has made no other call. With \<open>file=True\<close> no run, returning or raising, opens or
  extracts an archive. When none of the calls raises, \<open>download_weights\<close> returns.
\<close>

theorem download_weights_modes:
  "(download_weights io calls url dest False = (Inr (), calls') \<longrightarrow>
      calls' = calls @ [MakeDirs dest, CreateTemp (temp_name io), HttpGet url]
                 @ map (Write (temp_name io)) (http_chunks io url)
                 @ [Flush (temp_name io), TarOpen (temp_name io),
                    ExtractAll (temp_name io) dest]
      \<and> bytes_written (temp_name io) (drop (length calls) calls') = concat (http_chunks io url))
   \<and> (download_weights io calls url dest True = (Inr (), calls') \<longrightarrow>
      calls' = calls @ (if os_dirname dest = [] then [] else [MakeDirs (os_dirname dest)])
                 @ [HttpGet url, OpenWrite dest] @ map (Write dest) (http_chunks io url)
      \<and> bytes_written dest (drop (length calls) calls') = concat (http_chunks io url))
   \<and> (\<forall>op \<in> set (snd (download_weights io calls url dest True)).
         is_tar_op op \<longrightarrow> op \<in> set calls)
   \<and> ((\<forall>l op. os_raises io l op = None) \<longrightarrow>
         fst (download_weights io calls url dest as_file) = Inr ())"
proof -
  have archive: "calls' = calls @ [MakeDirs dest, CreateTemp (temp_name io), HttpGet url]
                 @ map (Write (temp_name io)) (http_chunks io url)
                 @ [Flush (temp_name io), TarOpen (temp_name io),
                    ExtractAll (temp_name io) dest]
      \<and> bytes_written (temp_name io) (drop (length calls) calls') = concat (http_chunks io url)"
    if "download_weights io calls url dest False = (Inr (), calls')"
    using archive_mode_Inr [OF that]
    by (simp add: bytes_written_append bytes_written_writes)
  have plain: "calls' = calls @ (if os_dirname dest = [] then [] else [MakeDirs (os_dirname dest)])
                 @ [HttpGet url, OpenWrite dest] @ map (Write dest) (http_chunks io url)
      \<and> bytes_written dest (drop (length calls) calls') = concat (http_chunks io url)"
    if "download_weights io calls url dest True = (Inr (), calls')"
    using file_mode_Inr [OF that]
    by (simp add: bytes_written_append bytes_written_writes)
  from archive plain file_mode_no_tar [of _ io calls url dest]
    download_weights_quiet [of io calls url dest]
  show ?thesis by blast
qed

theorem download_weights_modes_witness:
  "download_weights sample_net []
       ''https://weights.replicate.delivery/default/sdxl/safety-1.0.tar'' ''safety-cache'' False
     = (Inr (),
        [MakeDirs ''safety-cache'', CreateTemp ''/tmp/tmpq1.tar'',
         HttpGet ''https://weights.replicate.delivery/default/sdxl/safety-1.0.tar'',
         Write ''/tmp/tmpq1.tar'' ''ab'', Write ''/tmp/tmpq1.tar'' ''cd'',
         Flush ''/tmp/tmpq1.tar'', TarOpen ''/tmp/tmpq1.tar'',
         ExtractAll ''/tmp/tmpq1.tar'' ''safety-cache''])
   \<and> download_weights sample_net []
       ''https://example.com/loras/x.safetensors'' ''/cache/x.safetensors'' True
     = (Inr (),
        [MakeDirs ''/cache'', HttpGet ''https://example.com/loras/x.safetensors'',
         OpenWrite ''/cache/x.safetensors'', Write ''/cache/x.safetensors'' ''ab'',
         Write ''/cache/x.safetensors'' ''cd''])
   \<and> download_weights strict_net []
       ''https://example.com/loras/x.safetensors'' ''cache/'' True
     = (Inl (OtherError ''IsADirectoryError''),
        [MakeDirs ''cache'', HttpGet ''https://example.com/loras/x.safetensors''])
   \<and> \<not> is_tar_op (MakeDirs ''cache'')
   \<and> \<not> is_tar_op (HttpGet ''https://example.com/loras/x.safetensors'')"
proof -
  let ?tar = "''https://weights.replicate.delivery/default/sdxl/safety-1.0.tar''"
  let ?url = "''https://example.com/loras/x.safetensors''"
  let ?tmp = "''/tmp/tmpq1.tar''"
  have quiet: "\<forall>l op. os_raises sample_net l op = None"
    by (simp add: sample_net_def)
  have net: "temp_name sample_net = ?tmp" "http_chunks sample_net u = [''ab'', ''cd'']" for u
    by (simp_all add: sample_net_def)
  have dir: "os_dirname ''/cache/x.safetensors'' = ''/cache''" "os_dirname ''cache/'' = ''cache''"
    by (simp_all add: os_dirname_def)
  note fact = download_weights_modes [where io = sample_net and calls = "[]"]
  from fact [where url = ?tar and dest = "''safety-cache''" and as_file = False] quiet
  obtain c1 where run1: "download_weights sample_net [] ?tar ''safety-cache'' False = (Inr (), c1)"
    by (cases "download_weights sample_net [] ?tar ''safety-cache'' False") auto
  from fact [where url = ?tar and dest = "''safety-cache''" and calls' = c1] run1
  have r1: "c1 = [MakeDirs ''safety-cache'', CreateTemp ?tmp, HttpGet ?tar,
         Write ?tmp ''ab'', Write ?tmp ''cd'', Flush ?tmp, TarOpen ?tmp,
         ExtractAll ?tmp ''safety-cache'']"
    by (simp add: net)
  from fact [where url = ?url and dest = "''/cache/x.safetensors''" and as_file = True] quiet
  obtain c2 where run2:
    "download_weights sample_net [] ?url ''/cache/x.safetensors'' True = (Inr (), c2)"
    by (cases "download_weights sample_net [] ?url ''/cache/x.safetensors'' True") auto
  from fact [where url = ?url and dest = "''/cache/x.safetensors''" and calls' = c2] run2
  have r2: "c2 = [MakeDirs ''/cache'', HttpGet ?url, OpenWrite ''/cache/x.safetensors'',
         Write ''/cache/x.safetensors'' ''ab'', Write ''/cache/x.safetensors'' ''cd'']"
    by (simp add: net dir)
  have r3: "download_weights strict_net [] ?url ''cache/'' True
     = (Inl (OtherError ''IsADirectoryError''), [MakeDirs ''cache'', HttpGet ?url])"
    by (simp add: download_weights_def dir perform_def strict_net_def sample_net_def)
  from download_weights_modes [where io = strict_net and calls = "[]" and url = ?url
      and dest = "''cache/''"] r3
  have r4: "\<not> is_tar_op (MakeDirs ''cache'')" "\<not> is_tar_op (HttpGet ?url)"
    by simp_all
  from run1 r1 run2 r2 r3 r4 show ?thesis by simp
qed

end
